theory Spec2Isabelle
  imports Complex_Main
begin

section \<open>The realtime stream client of the dashboard\<close>

text \<open>
  This theory embeds the WebSocket provider of the web dashboard
  (\<^verbatim>\<open>WebSocketProvider\<close>, the hook file that imports \<^verbatim>\<open>@crypto-signal/shared\<close>)
  together with the helper \<^verbatim>\<open>getAuthToken\<close> of \<^verbatim>\<open>lib/utils.ts\<close> and the message
  types of the shared package.

  React state (\<^verbatim>\<open>useState\<close>) and refs (\<^verbatim>\<open>useRef\<close>) are the fields of one record;
  a state setter called with an updater function is the application of that function
  to the field. Everything the provider does to the outside (console, query cache,
  socket, timers) is returned as a list of effects. JavaScript exceptions are values
  of the type \<open>error\<close>; a \<^verbatim>\<open>try\<close>/\<^verbatim>\<open>catch\<close> is a case distinction on the sum.
\<close>

subsection \<open>Values\<close>

text \<open>A JavaScript number. The provider stores and compares numbers of messages,
  it never computes with them.\<close>

type_synonym number = real

text \<open>A value of TypeScript type \<^verbatim>\<open>any\<close> that came out of \<^verbatim>\<open>JSON.parse\<close>.\<close>

datatype json =
    JNull
  | JBool bool
  | JNum number
  | JStr string
  | JArr "json list"
  | JObj "(string \<times> json) list"

datatype Sentiment = BULLISH | BEARISH | NEUTRAL

text \<open>\<^verbatim>\<open>NewSignalMessage['data']\<close>, which the provider stores as \<^verbatim>\<open>SignalData\<close>.\<close>

record SignalData =
  id :: number
  token_symbol :: string
  token_name :: string
  channel_name :: string
  sentiment :: Sentiment
  price_at_signal :: "number option"
  confidence_score :: number
  signal_type :: string
  contract_addresses :: "string list"
  chain :: "string option"
  timestamp :: string

record SentimentData =
  overall :: Sentiment
  score :: number

record TrendingToken =
  symbol :: string
  count :: number
  change :: number

record TrendingData =
  top_tokens :: "TrendingToken list"

text \<open>Optional members (\<^verbatim>\<open>chain?: string\<close>) are \<open>None\<close> when absent; a member of type
  \<^verbatim>\<open>number | null\<close> is \<open>None\<close> when \<^verbatim>\<open>null\<close>. For \<^verbatim>\<open>market_cap?: number | null\<close> and its
  like, absent and \<^verbatim>\<open>null\<close> are both \<open>None\<close>: the provider never reads them.\<close>

record TrackedTokenPrice =
  symbol :: string
  chain :: "string option"
  address :: "string option"
  price_usd :: "number option"
  price_change_24h :: "number option"
  token_name :: "string option"
  token_logo :: "string option"
  market_cap :: "number option"
  volume_24h :: "number option"
  cmc_rank :: "number option"
  updated_at :: "string option"

record TrackedTransfer =
  symbol :: string
  chain_id :: string
  address :: string
  from' :: string
  to' :: string
  value' :: string
  token_name :: string
  token_symbol :: string
  tx_hash :: string
  confirmed :: bool
  block_number :: "string option"
  block_timestamp :: "string option"
  timestamp :: string

record MarketUpdateMessage =
  timestamp :: string
  source :: string
  data :: json

record ChannelMessage =
  channel_name :: string
  channel_id :: number
  text' :: string
  message_id :: number
  timestamp :: string
  has_signal :: bool
  signal_type :: "string option"
  token_symbol :: "string option"
  contract_addresses :: "string list"
  chain :: "string option"
  sentiment :: "string option"

record MonitoringStatus =
  is_monitoring :: bool
  channels_count :: number
  message :: string

text \<open>The target kind of a command, \<^verbatim>\<open>'token' | 'channel'\<close>.\<close>

datatype SubType = TokenSub | ChannelSub

text \<open>
  \<^verbatim>\<open>WebSocketMessage\<close>: the union of the shared package, one constructor per member,
  each carrying the members the handler can read (\<^verbatim>\<open>data\<close>, \<^verbatim>\<open>message\<close>; the base
  \<^verbatim>\<open>timestamp\<close> is kept only where the message is stored whole). The handler guards
  three payloads against being falsy (\<^verbatim>\<open>priceMsg.data?.tokens\<close>, \<^verbatim>\<open>transferMsg.data\<close>,
  \<^verbatim>\<open>cm\<close>); these are options, \<open>None\<close> for a missing or \<^verbatim>\<open>null\<close> payload.
  \<open>OtherType t\<close> is a parsed value whose \<^verbatim>\<open>type\<close> is a string \<open>t\<close> outside the
  union, \<open>NoType\<close> one with no string \<^verbatim>\<open>type\<close> at all (a number, an array, an object
  without the member).
\<close>

datatype WebSocketMessage =
    ConnectedMessage string
  | NewSignalMessage SignalData
  | SentimentUpdateMessage SentimentData
  | TrendingUpdateMessage TrendingData
  | TrackedPriceUpdateMessage "TrackedTokenPrice list option"
  | TrackedTransferMessage "TrackedTransfer option"
  | MarketUpdate MarketUpdateMessage
  | NotificationMessage json
  | ChannelMessageMessage "ChannelMessage option"
  | MonitoringStatusMessage MonitoringStatus
  | SubscribedMessage SubType string
  | UnsubscribedMessage SubType string
  | PongMessage
  | ErrorMessage string
  | OtherType string
  | NoType

text \<open>\<^verbatim>\<open>WebSocketCommand\<close>.\<close>

datatype WebSocketCommand =
    SubscribeCommand SubType string
  | UnsubscribeCommand SubType string
  | PingCommand

subsection \<open>The browser: exceptions, sockets, timers, effects\<close>

datatype error = SyntaxError | TypeError | URIError | InvalidStateError

text \<open>\<^verbatim>\<open>WebSocket.readyState\<close>.\<close>

datatype readyState = CONNECTING | OPEN | CLOSING | CLOSED

record WebSocket =
  url :: string
  readyState :: readyState

text \<open>A timer handle is the number the browser gave it.\<close>

type_synonym timer = nat

datatype effect =
    ConsoleLog string
  | ConsoleError string
  | InvalidateQueries string
  | WsSend WebSocketCommand
  | NewWebSocket string
  | SetTimeoutConnect timer nat
  | SetIntervalPing timer nat
  | ClearInterval timer

text \<open>
  What \<^verbatim>\<open>JSON.parse(event.data)\<close> does with the data of a message event: it throws
  a \<^verbatim>\<open>SyntaxError\<close>, or returns \<^verbatim>\<open>null\<close>, or returns a value that is read as a
  \<^verbatim>\<open>WebSocketMessage\<close>.
\<close>

datatype MessageEvent = Malformed | ParsedNull | Parsed WebSocketMessage

text \<open>
  The provider's state: the nine \<^verbatim>\<open>useState\<close> slices, the four refs, and the part of
  the browser the refs point into: the pending timeouts and running intervals, each
  with its delay in milliseconds, and the next free timer handle.
\<close>

record PricePoint =
  t :: string
  p :: number

record client =
  isConnected :: bool
  signals :: "SignalData list"
  marketUpdates :: "MarketUpdateMessage list"
  sentiment :: "SentimentData option"
  trending :: "TrendingData option"
  trackedPrices :: "string \<rightharpoonup> TrackedTokenPrice"
  trackedTransfers :: "TrackedTransfer list"
  priceHistory :: "string \<rightharpoonup> PricePoint list"
  channelMessages :: "ChannelMessage list"
  wsRef :: "WebSocket option"
  reconnectAttempts :: nat
  reconnectTimeout :: "timer option"
  pingInterval :: "timer option"
  timeouts :: "(timer \<times> nat) list"
  intervals :: "(timer \<times> nat) list"
  nextTimer :: timer

text \<open>The state of a freshly mounted provider.\<close>

definition initial :: client where
  "initial = \<lparr> isConnected = False, signals = [], marketUpdates = [],
     sentiment = None, trending = None, trackedPrices = Map.empty,
     trackedTransfers = [], priceHistory = Map.empty, channelMessages = [],
     wsRef = None, reconnectAttempts = 0, reconnectTimeout = None,
     pingInterval = None, timeouts = [], intervals = [], nextTimer = 1 \<rparr>"

text \<open>
  What the provider reads from its surroundings: \<^verbatim>\<open>window.location\<close> (\<open>None\<close> when
  \<^verbatim>\<open>window\<close> is undefined, on the server), the two build-time variables, the local
  storage, \<^verbatim>\<open>encodeURIComponent\<close> (\<open>None\<close> where it throws \<^verbatim>\<open>URIError\<close>), which URLs
  the \<^verbatim>\<open>WebSocket\<close> constructor accepts (it throws \<^verbatim>\<open>SyntaxError\<close> on the others), and
  the engine's \<^verbatim>\<open>String.prototype.toUpperCase\<close> on strings that are not plain ASCII.
\<close>

record location =
  hostname :: string
  protocol :: string
  host :: string

record environment =
  window :: "location option"
  NEXT_PUBLIC_WS_URL :: "string option"
  NEXT_PUBLIC_API_URL :: "string option"
  localStorage :: "string \<rightharpoonup> string"
  encodeURIComponent :: "string \<Rightarrow> string option"
  acceptsUrl :: "string \<Rightarrow> bool"
  unicodeToUpperCase :: "string \<Rightarrow> string"

subsection \<open>Strings and arrays of JavaScript\<close>

definition startsWith :: "string \<Rightarrow> string \<Rightarrow> bool" where
  "startsWith s pre = (take (length pre) s = pre)"

definition endsWith :: "string \<Rightarrow> string \<Rightarrow> bool" where
  "endsWith s suf = (length suf \<le> length s \<and> drop (length s - length suf) s = suf)"

text \<open>\<^verbatim>\<open>s.replace(/^https?:\/\//, r)\<close>: the scheme at the start of \<open>s\<close>, if there is
  one, is replaced; otherwise \<open>s\<close> is returned as it is.\<close>

definition replaceScheme :: "string \<Rightarrow> string \<Rightarrow> string" where
  "replaceScheme s r =
     (if startsWith s ''http://'' then r @ drop 7 s
      else if startsWith s ''https://'' then r @ drop 8 s
      else s)"

text \<open>\<^verbatim>\<open>s.replace(/\/api\/v1$/, '')\<close>.\<close>

definition removeApiSuffix :: "string \<Rightarrow> string" where
  "removeApiSuffix s = (if endsWith s ''/api/v1'' then take (length s - 7) s else s)"

text \<open>
  \<^verbatim>\<open>String.prototype.toUpperCase\<close>. A string is the list of its bytes in UTF-8. On
  a string of ASCII characters only, JavaScript maps the letters \<^verbatim>\<open>a\<close> to \<^verbatim>\<open>z\<close> to
  \<^verbatim>\<open>A\<close> to \<^verbatim>\<open>Z\<close> and keeps every other character. On any other string the result
  is the one of the engine's Unicode case mapping, which is taken from the environment
  as it is.
\<close>

definition isAscii :: "string \<Rightarrow> bool" where
  "isAscii s = list_all (\<lambda>c. (of_char c :: nat) < 128) s"

definition upperChar :: "char \<Rightarrow> char" where
  "upperChar c =
     (if 97 \<le> (of_char c :: nat) \<and> (of_char c :: nat) \<le> 122
      then char_of (of_char c - 32 :: nat) else c)"

definition toUpperCase :: "environment \<Rightarrow> string \<Rightarrow> string" where
  "toUpperCase env s = (if isAscii s then map upperChar s else unicodeToUpperCase env s)"

text \<open>\<^verbatim>\<open>arr.slice(0, n)\<close> is \<open>take n arr\<close>; \<^verbatim>\<open>arr.slice(-n)\<close> keeps the last \<open>n\<close>.\<close>

definition sliceLast :: "nat \<Rightarrow> 'a list \<Rightarrow> 'a list" where
  "sliceLast n xs = drop (length xs - n) xs"

text \<open>A string, possibly \<^verbatim>\<open>undefined\<close> or \<^verbatim>\<open>null\<close>, is truthy when it is a non-empty
  string.\<close>

fun truthy :: "string option \<Rightarrow> bool" where
  "truthy None = False"
| "truthy (Some s) = (s \<noteq> [])"

subsection \<open>The endpoint URL\<close>

text \<open>The second branch of \<^verbatim>\<open>getWebSocketUrl\<close>: the endpoint derived from an API URL that
  starts with \<^verbatim>\<open>http\<close>.\<close>

definition apiDerivedUrl :: "string \<Rightarrow> string" where
  "apiDerivedUrl apiUrl =
     (let isSecure = startsWith apiUrl ''https'';
          wsProtocol = (if isSecure then ''wss://'' else ''ws://'');
          baseUrl = replaceScheme apiUrl wsProtocol;
          baseUrl = (if endsWith baseUrl ''/'' then butlast baseUrl else baseUrl);
          baseUrl = (if endsWith baseUrl ''/api/v1'' then removeApiSuffix baseUrl else baseUrl)
      in baseUrl @ ''/api/v1/live/stream'')"

text \<open>\<^verbatim>\<open>getWebSocketUrl\<close>. A build-time variable counts when it is set and not empty.\<close>

definition getWebSocketUrl :: "environment \<Rightarrow> string" where
  "getWebSocketUrl env =
     (case window env of
        None \<Rightarrow> []
      | Some loc \<Rightarrow>
          (case (if truthy (NEXT_PUBLIC_WS_URL env) then NEXT_PUBLIC_WS_URL env else None) of
             Some wsUrl \<Rightarrow> wsUrl
           | None \<Rightarrow>
               (let apiUrl = (case NEXT_PUBLIC_API_URL env of Some u \<Rightarrow> u | None \<Rightarrow> [])
                in if startsWith apiUrl ''http'' then apiDerivedUrl apiUrl
                   else if hostname loc = ''localhost'' \<or> hostname loc = ''127.0.0.1''
                   then ''ws://localhost:8000/api/v1/live/stream''
                   else (if protocol loc = ''https:'' then ''wss://'' else ''ws://'')
                        @ host loc @ ''/api/v1/live/stream'')))"

definition AUTH_TOKEN_KEY :: string where
  "AUTH_TOKEN_KEY = ''crypto_signal_auth_token''"

text \<open>\<^verbatim>\<open>getAuthToken\<close> of \<^verbatim>\<open>lib/utils.ts\<close>.\<close>

definition getAuthToken :: "environment \<Rightarrow> string option" where
  "getAuthToken env =
     (case window env of None \<Rightarrow> None | Some _ \<Rightarrow> localStorage env AUTH_TOKEN_KEY)"

subsection \<open>The provider\<close>

definition MAX_SIGNALS :: nat where
  "MAX_SIGNALS = 100"

definition RECONNECT_INTERVAL :: nat where
  "RECONNECT_INTERVAL = 3000"

definition MAX_RECONNECT_ATTEMPTS :: nat where
  "MAX_RECONNECT_ATTEMPTS = 10"

text \<open>A \<^verbatim>\<open>try\<close> block with its \<^verbatim>\<open>catch\<close>.\<close>

definition try_catch :: "error + 'a \<Rightarrow> (error \<Rightarrow> error + 'a) \<Rightarrow> error + 'a" where
  "try_catch body handler = (case body of Inl e \<Rightarrow> handler e | Inr r \<Rightarrow> Inr r)"

text \<open>\<^verbatim>\<open>WebSocket.send\<close> of the browser: it throws while the socket is connecting,
  transmits when it is open, and discards the data silently afterwards.\<close>

definition ws_send :: "WebSocket \<Rightarrow> WebSocketCommand \<Rightarrow> error + effect list" where
  "ws_send ws command =
     (case readyState ws of
        CONNECTING \<Rightarrow> Inl InvalidStateError
      | OPEN \<Rightarrow> Inr [WsSend command]
      | CLOSING \<Rightarrow> Inr []
      | CLOSED \<Rightarrow> Inr [])"

text \<open>\<^verbatim>\<open>wsRef.current?.readyState === WebSocket.OPEN\<close>.\<close>

definition socketOpen :: "client \<Rightarrow> bool" where
  "socketOpen c = (case wsRef c of None \<Rightarrow> False | Some ws \<Rightarrow> readyState ws = OPEN)"

definition sendCommand :: "client \<Rightarrow> WebSocketCommand \<Rightarrow> error + client \<times> effect list" where
  "sendCommand c command =
     (case wsRef c of
        None \<Rightarrow> Inr (c, [])
      | Some ws \<Rightarrow>
          if readyState ws = OPEN
          then (case ws_send ws command of Inl e \<Rightarrow> Inl e | Inr sent \<Rightarrow> Inr (c, sent))
          else Inr (c, []))"

definition subscribe :: "client \<Rightarrow> SubType \<Rightarrow> string \<Rightarrow> error + client \<times> effect list" where
  "subscribe c ty v = sendCommand c (SubscribeCommand ty v)"

definition unsubscribe :: "client \<Rightarrow> SubType \<Rightarrow> string \<Rightarrow> error + client \<times> effect list" where
  "unsubscribe c ty v = sendCommand c (UnsubscribeCommand ty v)"

definition clearSignals :: "client \<Rightarrow> client" where
  "clearSignals c = c\<lparr>signals := [], marketUpdates := [], channelMessages := []\<rparr>"

text \<open>The two updaters of the \<^verbatim>\<open>tracked_price_update\<close> case, one loop body each.
  \<open>now\<close> is what \<^verbatim>\<open>new Date().toISOString()\<close> returns while the message is handled.\<close>

definition upsertPrice ::
  "environment \<Rightarrow> TrackedTokenPrice \<Rightarrow> (string \<rightharpoonup> TrackedTokenPrice)
     \<Rightarrow> (string \<rightharpoonup> TrackedTokenPrice)" where
  "upsertPrice env tok updated =
     updated(toUpperCase env (TrackedTokenPrice.symbol tok) \<mapsto> tok)"

definition pushPrice ::
  "environment \<Rightarrow> string \<Rightarrow> TrackedTokenPrice \<Rightarrow> (string \<rightharpoonup> PricePoint list)
     \<Rightarrow> (string \<rightharpoonup> PricePoint list)" where
  "pushPrice env now tok next =
     (let sym = toUpperCase env (TrackedTokenPrice.symbol tok)
      in case price_usd tok of
           None \<Rightarrow> next
         | Some price \<Rightarrow>
             (let arr = (case next sym of Some old \<Rightarrow> old | None \<Rightarrow> [])
                        @ [\<lparr>t = now, p = price\<rparr>]
              in next(sym \<mapsto> (if length arr > 500 then sliceLast 500 arr else arr))))"

text \<open>The \<^verbatim>\<open>switch\<close> of \<^verbatim>\<open>handleMessage\<close>, in the order of its cases; a message of any
  other type falls through it.\<close>

fun dispatch :: "environment \<Rightarrow> string \<Rightarrow> client \<Rightarrow> WebSocketMessage \<Rightarrow> client \<times> effect list" where
  "dispatch env now c (ConnectedMessage m) = (c, [ConsoleLog (''WebSocket connected: '' @ m)])"
| "dispatch env now c (NewSignalMessage d) =
     (c\<lparr>signals := take MAX_SIGNALS (d # signals c)\<rparr>, [InvalidateQueries ''signals''])"
| "dispatch env now c (MarketUpdate m) =
     (c\<lparr>marketUpdates := take MAX_SIGNALS (m # marketUpdates c)\<rparr>, [])"
| "dispatch env now c (SentimentUpdateMessage d) = (c\<lparr>sentiment := Some d\<rparr>, [])"
| "dispatch env now c (TrendingUpdateMessage d) = (c\<lparr>trending := Some d\<rparr>, [])"
| "dispatch env now c (TrackedPriceUpdateMessage None) = (c, [])"
| "dispatch env now c (TrackedPriceUpdateMessage (Some tokens)) =
     (c\<lparr>trackedPrices := fold (upsertPrice env) tokens (trackedPrices c),
        priceHistory := fold (pushPrice env now) tokens (priceHistory c)\<rparr>, [])"
| "dispatch env now c (TrackedTransferMessage None) = (c, [])"
| "dispatch env now c (TrackedTransferMessage (Some d)) =
     (c\<lparr>trackedTransfers := take 50 (d # trackedTransfers c)\<rparr>, [])"
| "dispatch env now c (NotificationMessage d) =
     (c, [ConsoleLog ''WebSocket notification received:'', InvalidateQueries ''notifications''])"
| "dispatch env now c (ChannelMessageMessage None) = (c, [])"
| "dispatch env now c (ChannelMessageMessage (Some cm)) =
     (c\<lparr>channelMessages := take 200 (cm # channelMessages c)\<rparr>, [])"
| "dispatch env now c (MonitoringStatusMessage d) =
     (c, [InvalidateQueries ''monitoringStatus'', InvalidateQueries ''userTelegramStatus''])"
| "dispatch env now c PongMessage = (c, [])"
| "dispatch env now c (ErrorMessage m) = (c, [ConsoleError ''WebSocket error:''])"
| "dispatch env now c (SubscribedMessage ty v) = (c, [])"
| "dispatch env now c (UnsubscribedMessage ty v) = (c, [])"
| "dispatch env now c (OtherType ty) = (c, [])"
| "dispatch env now c NoType = (c, [])"

text \<open>\<^verbatim>\<open>handleMessage\<close>: the \<^verbatim>\<open>try\<close> block parses, reads \<^verbatim>\<open>message.type\<close> (a
  \<^verbatim>\<open>TypeError\<close> on \<^verbatim>\<open>null\<close>) and dispatches; the \<^verbatim>\<open>catch\<close> logs.\<close>

definition handleMessage ::
  "environment \<Rightarrow> string \<Rightarrow> client \<Rightarrow> MessageEvent \<Rightarrow> error + client \<times> effect list" where
  "handleMessage env now c event =
     try_catch
       (case event of
          Malformed \<Rightarrow> Inl SyntaxError
        | ParsedNull \<Rightarrow> Inl TypeError
        | Parsed msg \<Rightarrow> Inr (dispatch env now c msg))
       (\<lambda>e. Inr (c, [ConsoleError ''Failed to parse WebSocket message:'']))"

text \<open>The \<^verbatim>\<open>type\<close> of a parsed message, and the labels of the \<^verbatim>\<open>switch\<close>.\<close>

fun msgType :: "WebSocketMessage \<Rightarrow> string option" where
  "msgType (ConnectedMessage m) = Some ''connected''"
| "msgType (NewSignalMessage d) = Some ''new_signal''"
| "msgType (SentimentUpdateMessage d) = Some ''sentiment_update''"
| "msgType (TrendingUpdateMessage d) = Some ''trending_update''"
| "msgType (TrackedPriceUpdateMessage d) = Some ''tracked_price_update''"
| "msgType (TrackedTransferMessage d) = Some ''tracked_transfer''"
| "msgType (MarketUpdate m) = Some ''MARKET_UPDATE''"
| "msgType (NotificationMessage d) = Some ''notification''"
| "msgType (ChannelMessageMessage d) = Some ''channel_message''"
| "msgType (MonitoringStatusMessage d) = Some ''monitoring_status''"
| "msgType (SubscribedMessage ty v) = Some ''subscribed''"
| "msgType (UnsubscribedMessage ty v) = Some ''unsubscribed''"
| "msgType PongMessage = Some ''pong''"
| "msgType (ErrorMessage m) = Some ''error''"
| "msgType (OtherType ty) = Some ty"
| "msgType NoType = None"

definition caseLabels :: "string list" where
  "caseLabels = [''connected'', ''new_signal'', ''MARKET_UPDATE'', ''sentiment_update'',
     ''trending_update'', ''tracked_price_update'', ''tracked_transfer'', ''notification'',
     ''channel_message'', ''monitoring_status'', ''pong'', ''error'']"

definition recognized :: "WebSocketMessage \<Rightarrow> bool" where
  "recognized m = (case msgType m of None \<Rightarrow> False | Some ty \<Rightarrow> ty \<in> set caseLabels)"

text \<open>The URL \<^verbatim>\<open>connect\<close> opens: the endpoint, with the stored token appended when
  there is one.\<close>

definition connectUrl :: "environment \<Rightarrow> error + string" where
  "connectUrl env =
     (let token = getAuthToken env;
          baseUrl = getWebSocketUrl env
      in if truthy token
         then (case encodeURIComponent env (case token of Some tk \<Rightarrow> tk | None \<Rightarrow> []) of
                 None \<Rightarrow> Inl URIError
               | Some enc \<Rightarrow> Inr (baseUrl @ ''?token='' @ enc))
         else Inr baseUrl)"

text \<open>\<^verbatim>\<open>connect\<close>, up to the assignment of the handlers. The new socket is connecting.\<close>

definition connect :: "environment \<Rightarrow> client \<Rightarrow> error + client \<times> effect list" where
  "connect env c =
     (if socketOpen c then Inr (c, [])
      else try_catch
        (case connectUrl env of
           Inl e \<Rightarrow> Inl e
         | Inr wsUrl \<Rightarrow>
             if acceptsUrl env wsUrl
             then Inr (c\<lparr>wsRef := Some \<lparr>url = wsUrl, readyState = CONNECTING\<rparr>\<rparr>,
                       [NewWebSocket wsUrl])
             else Inl SyntaxError)
        (\<lambda>e. Inr (c, [ConsoleError ''Failed to create WebSocket:''])))"

text \<open>The \<^verbatim>\<open>onopen\<close> handler. \<^verbatim>\<open>setInterval\<close> hands out the next timer handle.\<close>

definition onopen :: "client \<Rightarrow> error + client \<times> effect list" where
  "onopen c =
     (let h = nextTimer c
      in Inr (c\<lparr>isConnected := True, reconnectAttempts := 0, pingInterval := Some h,
                intervals := intervals c @ [(h, 30000)], nextTimer := Suc h\<rparr>,
              [ConsoleLog ''WebSocket connected'', SetIntervalPing h 30000]))"

text \<open>The \<^verbatim>\<open>onclose\<close> handler. The handle in \<^verbatim>\<open>pingInterval\<close> stays where it is
  after \<^verbatim>\<open>clearInterval\<close>.\<close>

definition onclose :: "client \<Rightarrow> error + client \<times> effect list" where
  "onclose c =
     (let c1 = c\<lparr>isConnected := False\<rparr>;
          out1 = [ConsoleLog ''WebSocket closed:''];
          c2 = (case pingInterval c1 of
                  None \<Rightarrow> c1
                | Some h \<Rightarrow> c1\<lparr>intervals := filter (\<lambda>i. fst i \<noteq> h) (intervals c1)\<rparr>);
          out2 = (case pingInterval c1 of None \<Rightarrow> [] | Some h \<Rightarrow> [ClearInterval h])
      in if reconnectAttempts c2 < MAX_RECONNECT_ATTEMPTS
         then (let attempt = Suc (reconnectAttempts c2);
                   delay = min (RECONNECT_INTERVAL * attempt) 30000;
                   h = nextTimer c2
               in Inr (c2\<lparr>reconnectAttempts := attempt, reconnectTimeout := Some h,
                          timeouts := timeouts c2 @ [(h, delay)], nextTimer := Suc h\<rparr>,
                       out1 @ out2 @ [ConsoleLog ''Reconnecting'', SetTimeoutConnect h delay]))
         else Inr (c2, out1 @ out2))"

subsection \<open>Events\<close>

text \<open>
  What can happen to a mounted provider: the socket in \<^verbatim>\<open>wsRef\<close> opens, closes,
  delivers a message or reports an error; a pending reconnect timeout or a running
  heartbeat interval fires; a component calls one of the three exposed functions.
  A timer fires only while the browser still holds it. The socket events are not
  restricted: the theorems below hold for every sequence of them.
\<close>

datatype event =
    EvOpen
  | EvClose
  | EvMessage string MessageEvent
  | EvError
  | EvTimeout timer
  | EvInterval timer
  | CallSubscribe SubType string
  | CallUnsubscribe SubType string
  | CallClearSignals

definition setReadyState :: "readyState \<Rightarrow> client \<Rightarrow> client" where
  "setReadyState rs c = c\<lparr>wsRef := map_option (\<lambda>ws. ws\<lparr>readyState := rs\<rparr>) (wsRef c)\<rparr>"

fun handler :: "environment \<Rightarrow> client \<Rightarrow> event \<Rightarrow> error + client \<times> effect list" where
  "handler env c EvOpen = onopen (setReadyState OPEN c)"
| "handler env c EvClose = onclose (setReadyState CLOSED c)"
| "handler env c (EvMessage now event) = handleMessage env now c event"
| "handler env c EvError = Inr (c, [ConsoleError ''WebSocket error:''])"
| "handler env c (EvTimeout h) =
     (if h \<in> set (map fst (timeouts c))
      then connect env (c\<lparr>timeouts := filter (\<lambda>i. fst i \<noteq> h) (timeouts c)\<rparr>)
      else Inr (c, []))"
| "handler env c (EvInterval h) =
     (if h \<in> set (map fst (intervals c))
      then sendCommand c PingCommand
      else Inr (c, []))"
| "handler env c (CallSubscribe ty v) = subscribe c ty v"
| "handler env c (CallUnsubscribe ty v) = unsubscribe c ty v"
| "handler env c CallClearSignals = Inr (clearSignals c, [])"

text \<open>One event. An exception that leaves a handler is reported by the browser and the
  event loop goes on.\<close>

definition step :: "environment \<Rightarrow> client \<Rightarrow> event \<Rightarrow> client \<times> effect list" where
  "step env c ev =
     (case handler env c ev of
        Inl e \<Rightarrow> (c, [ConsoleError ''Uncaught''])
      | Inr r \<Rightarrow> r)"

text \<open>A sequence of events, with everything it did to the outside, in order.\<close>

fun run :: "environment \<Rightarrow> client \<Rightarrow> event list \<Rightarrow> client \<times> effect list" where
  "run env c [] = (c, [])"
| "run env c (ev # evs) =
     (case step env c ev of
        (c1, out1) \<Rightarrow> (case run env c1 evs of (c2, out2) \<Rightarrow> (c2, out1 @ out2)))"

text \<open>The delays of the reconnects scheduled, and the sockets constructed, in a list
  of effects.\<close>

fun scheduledDelays :: "effect list \<Rightarrow> nat list" where
  "scheduledDelays [] = []"
| "scheduledDelays (SetTimeoutConnect h d # out) = d # scheduledDelays out"
| "scheduledDelays (x # out) = scheduledDelays out"

fun socketsCreated :: "effect list \<Rightarrow> string list" where
  "socketsCreated [] = []"
| "socketsCreated (NewWebSocket u # out) = u # socketsCreated out"
| "socketsCreated (x # out) = socketsCreated out"

subsection \<open>Notions of the statements, and example inputs\<close>

text \<open>The delay \<^verbatim>\<open>onclose\<close> computes for an attempt.\<close>

definition reconnectDelay :: "nat \<Rightarrow> nat" where
  "reconnectDelay attempt = min (RECONNECT_INTERVAL * attempt) 30000"

text \<open>An engine's case mapping, as far as the examples need it: the letter e with
  acute accent, bytes C3 A9, becomes the capital letter, bytes C3 89.\<close>

definition exampleUnicodeUpper :: "string \<Rightarrow> string" where
  "exampleUnicodeUpper s =
     (if s = [CHR 0xC3, CHR 0xA9] then [CHR 0xC3, CHR 0x89] else s)"

text \<open>A page served over plain HTTP, with an absolute HTTPS API origin.\<close>

definition examplePage :: location where
  "examplePage = \<lparr>hostname = ''app.example.com'', protocol = ''http:'',
     host = ''app.example.com''\<rparr>"

definition exampleEnv :: environment where
  "exampleEnv = \<lparr> window = Some examplePage,
     NEXT_PUBLIC_WS_URL = None, NEXT_PUBLIC_API_URL = Some ''https://api.example.com'',
     localStorage = Map.empty, encodeURIComponent = Some, acceptsUrl = (\<lambda>u. True),
     unicodeToUpperCase = exampleUnicodeUpper \<rparr>"

text \<open>The reconnect loop: \<open>K\<close> rounds of a close event followed by the firing of the
  timeout the close scheduled, whose handle is the next one the browser hands out.\<close>

fun closeAndRetry :: "timer \<Rightarrow> nat \<Rightarrow> event list" where
  "closeAndRetry h 0 = []"
| "closeAndRetry h (Suc k) = EvClose # EvTimeout h # closeAndRetry (Suc h) k"

definition threeCloses :: "event list" where
  "threeCloses = [EvClose, EvTimeout 1, EvClose, EvError, EvClose]"

definition exhausted :: client where
  "exhausted = initial\<lparr>reconnectAttempts := 10\<rparr>"

definition closesAfterExhaustion :: "event list" where
  "closesAfterExhaustion =
     [EvClose, EvTimeout 1, EvClose, EvMessage ''2026-01-01T00:00:00.000Z'' Malformed, EvClose]"

definition connecting :: client where
  "connecting = initial\<lparr>wsRef := Some \<lparr>url = ''ws://localhost:8000/api/v1/live/stream'',
     readyState = CONNECTING\<rparr>, reconnectAttempts := 4\<rparr>"

text \<open>The price history of a symbol, empty when the symbol has none.\<close>

definition history :: "client \<Rightarrow> string \<Rightarrow> PricePoint list" where
  "history c k = (case priceHistory c k of Some old \<Rightarrow> old | None \<Rightarrow> [])"

text \<open>The points one \<^verbatim>\<open>tracked_price_update\<close> message, handled at \<open>now\<close>, appends under
  the key \<open>k\<close>: one for every token whose upper-cased symbol is \<open>k\<close> and whose price
  is not \<^verbatim>\<open>null\<close>.\<close>

definition pointsFor ::
  "environment \<Rightarrow> string \<Rightarrow> string \<Rightarrow> TrackedTokenPrice list \<Rightarrow> PricePoint list" where
  "pointsFor env now k tokens =
     List.map_filter
       (\<lambda>tok. if toUpperCase env (TrackedTokenPrice.symbol tok) = k
              then map_option (\<lambda>price. \<lparr>t = now, p = price\<rparr>) (price_usd tok)
              else None)
       tokens"

text \<open>Messages that insert the items of a list, first to last, one message each.\<close>

definition signalEvents :: "string \<Rightarrow> SignalData list \<Rightarrow> event list" where
  "signalEvents now xs = map (\<lambda>d. EvMessage now (Parsed (NewSignalMessage d))) xs"

definition marketEvents :: "string \<Rightarrow> MarketUpdateMessage list \<Rightarrow> event list" where
  "marketEvents now xs = map (\<lambda>m. EvMessage now (Parsed (MarketUpdate m))) xs"

definition channelEvents :: "string \<Rightarrow> ChannelMessage list \<Rightarrow> event list" where
  "channelEvents now xs = map (\<lambda>cm. EvMessage now (Parsed (ChannelMessageMessage (Some cm)))) xs"

definition transferEvents :: "string \<Rightarrow> TrackedTransfer list \<Rightarrow> event list" where
  "transferEvents now xs = map (\<lambda>d. EvMessage now (Parsed (TrackedTransferMessage (Some d)))) xs"

text \<open>One \<^verbatim>\<open>tracked_price_update\<close> message per point, for the token \<open>tok\<close>, handled at the
  time of the point.\<close>

definition priceEvents :: "TrackedTokenPrice \<Rightarrow> PricePoint list \<Rightarrow> event list" where
  "priceEvents tok pts =
     map (\<lambda>pt. EvMessage (t pt)
            (Parsed (TrackedPriceUpdateMessage (Some [tok\<lparr>price_usd := Some (p pt)\<rparr>]))))
       pts"

text \<open>A tracked token whose symbol is in lower case and whose price is \<^verbatim>\<open>null\<close>.\<close>

definition btcToken :: TrackedTokenPrice where
  "btcToken = \<lparr> TrackedTokenPrice.symbol = ''btc'', TrackedTokenPrice.chain = Some ''eth'',
     TrackedTokenPrice.address = None, price_usd = None, price_change_24h = None,
     TrackedTokenPrice.token_name = Some ''Bitcoin'', token_logo = None,
     market_cap = None, volume_24h = None, cmc_rank = Some 1, updated_at = None \<rparr>"

text \<open>Signals with the ids 1 to 150, and price points with the prices 1 to 501.\<close>

definition exampleSignal :: SignalData where
  "exampleSignal = \<lparr> SignalData.id = 0, SignalData.token_symbol = ''BTC'',
     SignalData.token_name = ''Bitcoin'', SignalData.channel_name = ''whales'',
     SignalData.sentiment = BULLISH, price_at_signal = None, confidence_score = 1,
     SignalData.signal_type = ''full_signal'', SignalData.contract_addresses = [],
     SignalData.chain = None, SignalData.timestamp = ''2026-01-01T00:00:00.000Z'' \<rparr>"

definition signals150 :: "SignalData list" where
  "signals150 = map (\<lambda>i. exampleSignal\<lparr>SignalData.id := real i\<rparr>) [1..<151]"

definition points501 :: "PricePoint list" where
  "points501 = map (\<lambda>i. \<lparr>t = ''2026-01-01T00:00:00.000Z'', p = real i\<rparr>) [1..<502]"

text \<open>A page served over HTTPS, with a relative API URL and a stored token; and a
  local development page served over HTTPS on port 3000.\<close>

definition securePage :: location where
  "securePage = \<lparr>hostname = ''signals.example.com'', protocol = ''https:'',
     host = ''signals.example.com''\<rparr>"

definition tokenEnv :: environment where
  "tokenEnv = \<lparr> window = Some securePage,
     NEXT_PUBLIC_WS_URL = None, NEXT_PUBLIC_API_URL = Some ''/api/v1'',
     localStorage = [AUTH_TOKEN_KEY \<mapsto> ''abc123''], encodeURIComponent = Some,
     acceptsUrl = (\<lambda>u. True), unicodeToUpperCase = exampleUnicodeUpper \<rparr>"

definition localPage :: location where
  "localPage = \<lparr>hostname = ''localhost'', protocol = ''https:'', host = ''localhost:3000''\<rparr>"

definition localEnv :: environment where
  "localEnv = \<lparr> window = Some localPage,
     NEXT_PUBLIC_WS_URL = None, NEXT_PUBLIC_API_URL = None,
     localStorage = Map.empty, encodeURIComponent = Some, acceptsUrl = (\<lambda>u. True),
     unicodeToUpperCase = exampleUnicodeUpper \<rparr>"

text \<open>An HTTPS page whose API URL is a plain HTTP one with the path \<^verbatim>\<open>/api/v1/\<close>.\<close>

definition plainApiEnv :: environment where
  "plainApiEnv = \<lparr> window = Some securePage,
     NEXT_PUBLIC_WS_URL = None, NEXT_PUBLIC_API_URL = Some ''http://10.0.0.5:8000/api/v1/'',
     localStorage = Map.empty, encodeURIComponent = Some, acceptsUrl = (\<lambda>u. True),
     unicodeToUpperCase = exampleUnicodeUpper \<rparr>"

text \<open>What the second branch of \<^verbatim>\<open>getWebSocketUrl\<close> does to the base URL after the scheme
  is replaced: one trailing slash is removed, then a trailing \<^verbatim>\<open>/api/v1\<close>.\<close>

definition stripBase :: "string \<Rightarrow> string" where
  "stripBase b =
     (let b1 = (if endsWith b ''/'' then butlast b else b)
      in if endsWith b1 ''/api/v1'' then removeApiSuffix b1 else b1)"

text \<open>A tracked token whose symbol is the letter e with acute accent.\<close>

definition accentToken :: TrackedTokenPrice where
  "accentToken = btcToken\<lparr>TrackedTokenPrice.symbol := [CHR 0xC3, CHR 0xA9]\<rparr>"

section \<open>Properties\<close>

subsection \<open>Sending\<close>

lemma sendCommand_eq: "sendCommand c cmd = Inr (c, if socketOpen c then [WsSend cmd] else [])"
  by (simp add: sendCommand_def socketOpen_def ws_send_def split: option.splits)

text \<open>
  C4. Whatever the command, \<^verbatim>\<open>sendCommand\<close> returns normally and returns the state it
  was given; it transmits the command when the socket in \<^verbatim>\<open>wsRef\<close> is open and does
  nothing otherwise: the command is dropped, nothing is queued. The same holds for
  \<^verbatim>\<open>subscribe\<close> and \<^verbatim>\<open>unsubscribe\<close>.
\<close>

theorem send_while_not_open:
  "sendCommand c cmd = Inr (c, if socketOpen c then [WsSend cmd] else []) \<and>
   subscribe c ty v = Inr (c, if socketOpen c then [WsSend (SubscribeCommand ty v)] else []) \<and>
   unsubscribe c ty v = Inr (c, if socketOpen c then [WsSend (UnsubscribeCommand ty v)] else [])"
proof -
  have "subscribe c ty v = sendCommand c (SubscribeCommand ty v)"
    by (simp add: subscribe_def)
  moreover have "unsubscribe c ty v = sendCommand c (UnsubscribeCommand ty v)"
    by (simp add: unsubscribe_def)
  ultimately show ?thesis
    by (simp add: sendCommand_eq)
qed

subsection \<open>Messages that are dropped\<close>

text \<open>
  C5. \<^verbatim>\<open>handleMessage\<close> returns normally on every message event. Data that does not
  parse (or parses to \<^verbatim>\<open>null\<close>) is logged and dropped, a parsed message whose type is
  none of the labels of the \<^verbatim>\<open>switch\<close> is ignored without a trace; in both cases the
  state returned is the state given, connection and buffers alike.
\<close>

theorem handleMessage_drops:
  "(\<exists>r. handleMessage env now c event = Inr r) \<and>
   handleMessage env now c Malformed = Inr (c, [ConsoleError ''Failed to parse WebSocket message:'']) \<and>
   handleMessage env now c ParsedNull = Inr (c, [ConsoleError ''Failed to parse WebSocket message:'']) \<and>
   (\<not> recognized m \<longrightarrow> handleMessage env now c (Parsed m) = Inr (c, []))"
proof -
  have total: "\<exists>r. handleMessage env now c event = Inr r"
    by (cases event) (simp_all add: handleMessage_def try_catch_def)
  have unknown: "\<not> recognized m \<longrightarrow> handleMessage env now c (Parsed m) = Inr (c, [])"
    by (cases m) (simp_all add: handleMessage_def try_catch_def recognized_def caseLabels_def)
  show ?thesis
    using total unknown by (simp add: handleMessage_def try_catch_def)
qed

theorem handleMessage_drops_witness:
  "\<not> recognized (SubscribedMessage TokenSub ''BTC'') \<and>
   \<not> recognized (OtherType ''price_alert'') \<and> \<not> recognized NoType \<and>
   handleMessage exampleEnv ''2026-01-01T00:00:00.000Z'' initial (Parsed (SubscribedMessage TokenSub ''BTC''))
     = Inr (initial, []) \<and>
   handleMessage exampleEnv ''2026-01-01T00:00:00.000Z'' initial (Parsed (OtherType ''price_alert''))
     = Inr (initial, [])"
proof -
  have a: "\<not> recognized (SubscribedMessage TokenSub ''BTC'')"
    by (simp add: recognized_def caseLabels_def)
  have b: "\<not> recognized (OtherType ''price_alert'')"
    by (simp add: recognized_def caseLabels_def)
  have c: "\<not> recognized NoType"
    by (simp add: recognized_def)
  show ?thesis
    using a b c
      handleMessage_drops [of exampleEnv "''2026-01-01T00:00:00.000Z''" initial Malformed
        "SubscribedMessage TokenSub ''BTC''"]
      handleMessage_drops [of exampleEnv "''2026-01-01T00:00:00.000Z''" initial Malformed
        "OtherType ''price_alert''"]
    by blast
qed

subsection \<open>Clearing\<close>

text \<open>
  C8. \<^verbatim>\<open>clearSignals\<close> empties the signals, the market updates and the channel
  messages, and nothing else: the socket, the connected flag, the retry counter, the
  timers, sentiment, trending, tracked prices, tracked transfers and price history
  are what they were.
\<close>

theorem clearSignals_frame:
  "signals (clearSignals c) = [] \<and> marketUpdates (clearSignals c) = [] \<and>
   channelMessages (clearSignals c) = [] \<and>
   wsRef (clearSignals c) = wsRef c \<and> isConnected (clearSignals c) = isConnected c \<and>
   reconnectAttempts (clearSignals c) = reconnectAttempts c \<and>
   reconnectTimeout (clearSignals c) = reconnectTimeout c \<and>
   pingInterval (clearSignals c) = pingInterval c \<and>
   timeouts (clearSignals c) = timeouts c \<and> intervals (clearSignals c) = intervals c \<and>
   nextTimer (clearSignals c) = nextTimer c \<and>
   client.sentiment (clearSignals c) = client.sentiment c \<and>
   trending (clearSignals c) = trending c \<and>
   trackedPrices (clearSignals c) = trackedPrices c \<and>
   trackedTransfers (clearSignals c) = trackedTransfers c \<and>
   priceHistory (clearSignals c) = priceHistory c \<and>
   step env c CallClearSignals = (clearSignals c, [])"
proof -
  have emptied: "signals (clearSignals c) = [] \<and> marketUpdates (clearSignals c) = [] \<and>
      channelMessages (clearSignals c) = []"
    by (simp add: clearSignals_def)
  have called: "step env c CallClearSignals = (clearSignals c, [])"
    by (simp add: step_def)
  from emptied called show ?thesis
    by (simp add: clearSignals_def)
qed

subsection \<open>Reconnecting\<close>

lemma scheduledDelays_append [simp]:
  "scheduledDelays (xs @ ys) = scheduledDelays xs @ scheduledDelays ys"
  by (induction xs rule: scheduledDelays.induct) simp_all

lemma socketsCreated_append [simp]:
  "socketsCreated (xs @ ys) = socketsCreated xs @ socketsCreated ys"
  by (induction xs rule: socketsCreated.induct) simp_all

lemma dispatch_frame:
  "dispatch env now c m = (c', out) \<Longrightarrow>
     reconnectAttempts c' = reconnectAttempts c \<and> isConnected c' = isConnected c \<and>
     timeouts c' = timeouts c \<and> scheduledDelays out = [] \<and> socketsCreated out = []"
  by (induction now c m rule: dispatch.induct) auto

lemma connect_frame:
  "connect env c = Inr (c', out) \<Longrightarrow>
     reconnectAttempts c' = reconnectAttempts c \<and> isConnected c' = isConnected c \<and>
     timeouts c' = timeouts c \<and> scheduledDelays out = [] \<and> length (socketsCreated out) \<le> 1"
  by (auto simp: connect_def try_catch_def split: if_splits sum.splits)

lemma connect_total: "\<exists>r. connect env c = Inr r"
  by (auto simp: connect_def try_catch_def split: if_splits sum.splits)

lemma step_other:
  assumes "ev \<noteq> EvOpen" "ev \<noteq> EvClose" "step env c ev = (c', out)"
  shows "reconnectAttempts c' = reconnectAttempts c \<and> isConnected c' = isConnected c \<and>
     scheduledDelays out = [] \<and>
     length (socketsCreated out) + length (timeouts c') \<le> length (timeouts c)"
proof (cases ev)
  case (EvMessage now event)
  with assms(3) show ?thesis
    by (cases event) (auto simp: step_def handleMessage_def try_catch_def dest: dispatch_frame)
next
  case (EvTimeout h)
  show ?thesis
  proof (cases "h \<in> set (map fst (timeouts c))")
    case True
    let ?c1 = "c\<lparr>timeouts := filter (\<lambda>i. fst i \<noteq> h) (timeouts c)\<rparr>"
    from True have shorter: "length (filter (\<lambda>i. fst i \<noteq> h) (timeouts c)) < length (timeouts c)"
      by (auto intro!: length_filter_less)
    from connect_total obtain r where r: "connect env ?c1 = Inr r" by blast
    with assms(3) EvTimeout True have "r = (c', out)" by (simp add: step_def)
    with r have "connect env ?c1 = Inr (c', out)" by simp
    from connect_frame [OF this] shorter show ?thesis by simp
  next
    case False
    with assms(3) EvTimeout show ?thesis by (auto simp: step_def)
  qed
qed (use assms in \<open>auto simp: step_def sendCommand_eq subscribe_def unsubscribe_def clearSignals_def split: if_splits\<close>)

lemma step_close:
  assumes "step env c EvClose = (c', out)"
  shows "reconnectAttempts c' =
           (if reconnectAttempts c < MAX_RECONNECT_ATTEMPTS then Suc (reconnectAttempts c)
            else reconnectAttempts c) \<and>
         \<not> isConnected c' \<and>
         scheduledDelays out =
           (if reconnectAttempts c < MAX_RECONNECT_ATTEMPTS
            then [reconnectDelay (Suc (reconnectAttempts c))] else []) \<and>
         socketsCreated out = [] \<and>
         (\<not> reconnectAttempts c < MAX_RECONNECT_ATTEMPTS \<longrightarrow> timeouts c' = timeouts c)"
  using assms
  by (auto simp: step_def onclose_def setReadyState_def Let_def reconnectDelay_def split: option.splits if_splits)

lemma run_no_open:
  assumes "EvOpen \<notin> set evs" "run env c evs = (c', out)"
    "reconnectAttempts c \<le> MAX_RECONNECT_ATTEMPTS"
  shows "reconnectAttempts c' =
           min (reconnectAttempts c + count_list evs EvClose) MAX_RECONNECT_ATTEMPTS \<and>
         scheduledDelays out =
           map reconnectDelay [Suc (reconnectAttempts c) ..<
             Suc (min (reconnectAttempts c + count_list evs EvClose) MAX_RECONNECT_ATTEMPTS)]"
  using assms
proof (induction evs arbitrary: c c' out)
  case Nil
  then show ?case by simp
next
  case (Cons ev evs)
  obtain c1 out1 where s: "step env c ev = (c1, out1)" by (cases "step env c ev")
  obtain c2 out2 where r: "run env c1 evs = (c2, out2)" by (cases "run env c1 evs")
  from Cons.prems(2) s r have res: "c' = c2" "out = out1 @ out2" by simp_all
  from Cons.prems(1) have no: "EvOpen \<notin> set evs" and ne: "ev \<noteq> EvOpen" by auto
  show ?case
  proof (cases "ev = EvClose")
    case False
    from step_other [OF ne False s]
    have same: "reconnectAttempts c1 = reconnectAttempts c" "scheduledDelays out1 = []" by simp_all
    with Cons.prems(3) have le: "reconnectAttempts c1 \<le> MAX_RECONNECT_ATTEMPTS" by simp
    from Cons.IH [OF no r le] same res False show ?thesis by simp
  next
    case True
    show ?thesis
    proof (cases "reconnectAttempts c < MAX_RECONNECT_ATTEMPTS")
      case lt: True
      from step_close [of env c c1 out1] s True lt
      have st: "reconnectAttempts c1 = Suc (reconnectAttempts c)"
        "scheduledDelays out1 = [reconnectDelay (Suc (reconnectAttempts c))]" by simp_all
      with lt have le: "reconnectAttempts c1 \<le> MAX_RECONNECT_ATTEMPTS" by simp
      have upt: "[Suc (reconnectAttempts c) ..< Suc (min (Suc (reconnectAttempts c) + count_list evs EvClose) MAX_RECONNECT_ATTEMPTS)]
          = Suc (reconnectAttempts c) # [Suc (Suc (reconnectAttempts c)) ..< Suc (min (Suc (reconnectAttempts c) + count_list evs EvClose) MAX_RECONNECT_ATTEMPTS)]"
      proof -
        have "Suc (reconnectAttempts c) < Suc (min (Suc (reconnectAttempts c) + count_list evs EvClose) MAX_RECONNECT_ATTEMPTS)"
          using lt by simp
        then show ?thesis by (rule upt_conv_Cons)
      qed
      from Cons.IH [OF no r le] st res True upt show ?thesis by simp
    next
      case ge: False
      from step_close [of env c c1 out1] s True ge
      have st: "reconnectAttempts c1 = reconnectAttempts c" "scheduledDelays out1 = []" by simp_all
      with Cons.prems(3) have le: "reconnectAttempts c1 \<le> MAX_RECONNECT_ATTEMPTS" by simp
      from ge Cons.prems(3) have eq: "reconnectAttempts c = MAX_RECONNECT_ATTEMPTS" by simp
      from Cons.IH [OF no r le] st res True eq show ?thesis by simp
    qed
  qed
qed

lemma run_exhausted:
  assumes "EvOpen \<notin> set evs" "run env c evs = (c', out)"
    "reconnectAttempts c = MAX_RECONNECT_ATTEMPTS"
  shows "length (socketsCreated out) + length (timeouts c') \<le> length (timeouts c) \<and>
         isConnected c' = (isConnected c \<and> EvClose \<notin> set evs)"
  using assms
proof (induction evs arbitrary: c c' out)
  case Nil
  then show ?case by simp
next
  case (Cons ev evs)
  obtain c1 out1 where s: "step env c ev = (c1, out1)" by (cases "step env c ev")
  obtain c2 out2 where r: "run env c1 evs = (c2, out2)" by (cases "run env c1 evs")
  from Cons.prems(2) s r have res: "c' = c2" "out = out1 @ out2" by simp_all
  from Cons.prems(1) have no: "EvOpen \<notin> set evs" and ne: "ev \<noteq> EvOpen" by auto
  show ?case
  proof (cases "ev = EvClose")
    case False
    from step_other [OF ne False s]
    have same: "reconnectAttempts c1 = reconnectAttempts c" "isConnected c1 = isConnected c"
      "length (socketsCreated out1) + length (timeouts c1) \<le> length (timeouts c)" by simp_all
    with Cons.prems(3) have le: "reconnectAttempts c1 = MAX_RECONNECT_ATTEMPTS" by simp
    from Cons.IH [OF no r le] same res False show ?thesis by auto
  next
    case True
    from step_close [of env c c1 out1] s True Cons.prems(3)
    have st: "reconnectAttempts c1 = reconnectAttempts c" "\<not> isConnected c1"
      "socketsCreated out1 = []" "timeouts c1 = timeouts c" by simp_all
    with Cons.prems(3) have le: "reconnectAttempts c1 = MAX_RECONNECT_ATTEMPTS" by simp
    from Cons.IH [OF no r le] st res True show ?thesis by simp
  qed
qed

lemma reconnectDelay_mono: "a \<le> b \<Longrightarrow> reconnectDelay a \<le> reconnectDelay b"
  by (simp add: reconnectDelay_def RECONNECT_INTERVAL_def min_le_iff_disj)

lemma sorted_delays: "sorted (map reconnectDelay [i..<j])"
  by (simp add: sorted_map sorted_wrt_iff_nth_less reconnectDelay_mono)

lemma close_then_retry:
  assumes url: "connectUrl env = Inr wsUrl" and ok: "acceptsUrl env wsUrl"
    and lt: "reconnectAttempts c < MAX_RECONNECT_ATTEMPTS"
  shows "\<exists>c2 out2. run env c [EvClose, EvTimeout (nextTimer c)] = (c2, out2) \<and>
     socketsCreated out2 = [wsUrl] \<and>
     wsRef c2 = Some \<lparr>url = wsUrl, readyState = CONNECTING\<rparr> \<and>
     reconnectAttempts c2 = Suc (reconnectAttempts c) \<and>
     nextTimer c2 = Suc (nextTimer c) \<and>
     timeouts c2 = filter (\<lambda>i. fst i \<noteq> nextTimer c) (timeouts c)"
proof -
  obtain c1 out1 where s1: "step env c EvClose = (c1, out1)" by (cases "step env c EvClose")
  from s1 lt have c1: "timeouts c1 = timeouts c @ [(nextTimer c, reconnectDelay (Suc (reconnectAttempts c)))]"
    "nextTimer c1 = Suc (nextTimer c)" "reconnectAttempts c1 = Suc (reconnectAttempts c)"
    "\<not> socketOpen c1" "socketsCreated out1 = []"
    by (auto simp: step_def onclose_def setReadyState_def Let_def reconnectDelay_def socketOpen_def
        split: option.splits)
  let ?c1' = "c1\<lparr>timeouts := filter (\<lambda>i. fst i \<noteq> nextTimer c) (timeouts c1)\<rparr>"
  have no: "\<not> socketOpen ?c1'"
    using c1(4) by (simp add: socketOpen_def)
  have conn: "connect env ?c1' =
      Inr (?c1'\<lparr>wsRef := Some \<lparr>url = wsUrl, readyState = CONNECTING\<rparr>\<rparr>, [NewWebSocket wsUrl])"
    using no url ok by (simp add: connect_def try_catch_def)
  have s2: "step env c1 (EvTimeout (nextTimer c)) =
      (?c1'\<lparr>wsRef := Some \<lparr>url = wsUrl, readyState = CONNECTING\<rparr>\<rparr>, [NewWebSocket wsUrl])"
    using c1(1) conn by (simp add: step_def)
  have "run env c [EvClose, EvTimeout (nextTimer c)] =
      (?c1'\<lparr>wsRef := Some \<lparr>url = wsUrl, readyState = CONNECTING\<rparr>\<rparr>, out1 @ [NewWebSocket wsUrl])"
    by (simp only: run.simps s1 s2 prod.case append_Nil2)
  with c1 show ?thesis by simp
qed


lemma run_append:
  "run env c (xs @ ys) =
     (case run env c xs of (c1, out1) \<Rightarrow> (case run env c1 ys of (c2, out2) \<Rightarrow> (c2, out1 @ out2)))"
  by (induction xs arbitrary: c) (simp_all split: prod.splits)

lemma closeAndRetry_events:
  "EvOpen \<notin> set (closeAndRetry h K) \<and> count_list (closeAndRetry h K) EvClose = K"
  by (induction h K rule: closeAndRetry.induct) simp_all

lemma retry_loop:
  assumes url: "connectUrl env = Inr wsUrl" and ok: "acceptsUrl env wsUrl"
  shows "reconnectAttempts c + K \<le> MAX_RECONNECT_ATTEMPTS \<Longrightarrow>
     run env c (closeAndRetry (nextTimer c) K) = (c', out) \<Longrightarrow>
     socketsCreated out = replicate K wsUrl \<and>
     (0 < K \<longrightarrow> wsRef c' = Some \<lparr>url = wsUrl, readyState = CONNECTING\<rparr>)"
proof (induction K arbitrary: c c' out)
  case 0
  then show ?case by simp
next
  case (Suc K)
  from Suc.prems(1) have lt: "reconnectAttempts c < MAX_RECONNECT_ATTEMPTS" by simp
  from close_then_retry [OF url ok lt] obtain c2 out2 where
    r2: "run env c [EvClose, EvTimeout (nextTimer c)] = (c2, out2)" and
    made: "socketsCreated out2 = [wsUrl]" and
    ws: "wsRef c2 = Some \<lparr>url = wsUrl, readyState = CONNECTING\<rparr>" and
    cnt: "reconnectAttempts c2 = Suc (reconnectAttempts c)" and
    nxt: "nextTimer c2 = Suc (nextTimer c)"
    by blast
  obtain c3 out3 where r3: "run env c2 (closeAndRetry (nextTimer c2) K) = (c3, out3)"
    by (cases "run env c2 (closeAndRetry (nextTimer c2) K)")
  have split: "closeAndRetry (nextTimer c) (Suc K) =
      [EvClose, EvTimeout (nextTimer c)] @ closeAndRetry (nextTimer c2) K"
    by (simp add: nxt)
  have "run env c (closeAndRetry (nextTimer c) (Suc K)) = (c3, out2 @ out3)"
    by (simp only: split run_append r2 r3 prod.case)
  with Suc.prems(2) have res: "c' = c3" "out = out2 @ out3" by simp_all
  from cnt Suc.prems(1) have le: "reconnectAttempts c2 + K \<le> MAX_RECONNECT_ATTEMPTS" by simp
  from Suc.IH [OF le r3] have ih: "socketsCreated out3 = replicate K wsUrl"
    "0 < K \<longrightarrow> wsRef c3 = Some \<lparr>url = wsUrl, readyState = CONNECTING\<rparr>" by simp_all
  have last: "K = 0 \<longrightarrow> c3 = c2"
    using r3 by auto
  from res made ih ws last show ?case by (cases K) auto
qed

text \<open>
  C2. From a retry counter of zero, let a sequence of events hold \<open>K\<close> close events,
  \<open>K\<close> below the maximum of ten, and no open event (timers may fire and messages
  arrive in between). Then exactly \<open>K\<close> reconnects have been scheduled, one per close
  event, the counter is \<open>K\<close>, and the delays are \<open>min (3000 * attempt) 30000\<close> for the
  attempts \<open>1, \<dots>, K\<close>: a non-decreasing sequence, none above 30 seconds. And when
  each scheduled timeout fires before the next close event, each firing calls
  \<^verbatim>\<open>connect\<close>, which constructs a socket for the endpoint: after the \<open>K\<close> rounds
  exactly \<open>K\<close> sockets have been constructed, with the same delays, and the last of
  them is the connecting socket in \<^verbatim>\<open>wsRef\<close>.
\<close>

theorem reconnects_after_closes:
  assumes "reconnectAttempts c = 0" and "EvOpen \<notin> set evs"
    and "count_list evs EvClose = K" and "K < MAX_RECONNECT_ATTEMPTS"
    and "run env c evs = (c', out)"
  shows "reconnectAttempts c' = K \<and> length (scheduledDelays out) = K \<and>
    scheduledDelays out = map (\<lambda>attempt. min (3000 * attempt) 30000) [1..<Suc K] \<and>
    sorted (scheduledDelays out) \<and> (\<forall>d \<in> set (scheduledDelays out). d \<le> 30000) \<and>
    (connectUrl env = Inr wsUrl \<and> acceptsUrl env wsUrl \<longrightarrow>
       socketsCreated (snd (run env c (closeAndRetry (nextTimer c) K))) = replicate K wsUrl \<and>
       scheduledDelays (snd (run env c (closeAndRetry (nextTimer c) K)))
         = map (\<lambda>attempt. min (3000 * attempt) 30000) [1..<Suc K] \<and>
       reconnectAttempts (fst (run env c (closeAndRetry (nextTimer c) K))) = K \<and>
       (0 < K \<longrightarrow> wsRef (fst (run env c (closeAndRetry (nextTimer c) K)))
          = Some \<lparr>url = wsUrl, readyState = CONNECTING\<rparr>))"
proof -
  have le: "reconnectAttempts c \<le> MAX_RECONNECT_ATTEMPTS"
    using assms(1) by simp
  have fn: "map reconnectDelay [Suc 0..<Suc K] = map (\<lambda>attempt. min (3000 * attempt) 30000) [1..<Suc K]"
    by (simp add: reconnectDelay_def RECONNECT_INTERVAL_def)
  from run_no_open [OF assms(2) assms(5) le] assms(1,3,4)
  have cnt: "reconnectAttempts c' = K"
    and ds: "scheduledDelays out = map reconnectDelay [Suc 0..<Suc K]"
    by simp_all
  from ds have len: "length (scheduledDelays out) = K" by simp
  from ds have srt: "sorted (scheduledDelays out)" by (simp only: sorted_delays)
  from ds have cap: "\<forall>d \<in> set (scheduledDelays out). d \<le> 30000"
    by (auto simp: reconnectDelay_def)
  from ds fn have ds': "scheduledDelays out = map (\<lambda>attempt. min (3000 * attempt) 30000) [1..<Suc K]"
    by (rule trans)
  let ?loop = "closeAndRetry (nextTimer c) K"
  have r: "run env c ?loop = (fst (run env c ?loop), snd (run env c ?loop))" by simp
  from closeAndRetry_events [of "nextTimer c" K]
  have no: "EvOpen \<notin> set ?loop" and closes: "count_list ?loop EvClose = K" by simp_all
  from run_no_open [OF no r le] assms(1,4) closes
  have lcnt: "reconnectAttempts (fst (run env c ?loop)) = K"
    and lds: "scheduledDelays (snd (run env c ?loop)) = map reconnectDelay [Suc 0..<Suc K]"
    by simp_all
  from lds fn have lds': "scheduledDelays (snd (run env c ?loop))
      = map (\<lambda>attempt. min (3000 * attempt) 30000) [1..<Suc K]"
    by (rule trans)
  have loop: "connectUrl env = Inr wsUrl \<and> acceptsUrl env wsUrl \<longrightarrow>
       socketsCreated (snd (run env c ?loop)) = replicate K wsUrl \<and>
       (0 < K \<longrightarrow> wsRef (fst (run env c ?loop)) = Some \<lparr>url = wsUrl, readyState = CONNECTING\<rparr>)"
  proof
    assume u: "connectUrl env = Inr wsUrl \<and> acceptsUrl env wsUrl"
    have bound: "reconnectAttempts c + K \<le> MAX_RECONNECT_ATTEMPTS"
      using assms(1,4) by simp
    from u have u1: "connectUrl env = Inr wsUrl" and u2: "acceptsUrl env wsUrl" by simp_all
    from retry_loop [OF u1 u2 bound r]
    show "socketsCreated (snd (run env c ?loop)) = replicate K wsUrl \<and>
       (0 < K \<longrightarrow> wsRef (fst (run env c ?loop)) = Some \<lparr>url = wsUrl, readyState = CONNECTING\<rparr>)" .
  qed
  from cnt len ds' srt cap lcnt lds' loop show ?thesis by blast
qed

lemma connectUrl_exampleEnv:
  "connectUrl exampleEnv = Inr ''wss://api.example.com/api/v1/live/stream''"
  by (simp add: connectUrl_def getAuthToken_def getWebSocketUrl_def exampleEnv_def
      apiDerivedUrl_def startsWith_def endsWith_def replaceScheme_def Let_def)

theorem reconnects_after_closes_witness:
  "reconnectAttempts initial = 0 \<and> EvOpen \<notin> set threeCloses \<and>
   count_list threeCloses EvClose = 3 \<and> 3 < MAX_RECONNECT_ATTEMPTS \<and>
   reconnectAttempts (fst (run exampleEnv initial threeCloses)) = 3 \<and>
   scheduledDelays (snd (run exampleEnv initial threeCloses)) = [3000, 6000, 9000] \<and>
   connectUrl exampleEnv = Inr ''wss://api.example.com/api/v1/live/stream'' \<and>
   acceptsUrl exampleEnv ''wss://api.example.com/api/v1/live/stream'' \<and>
   closeAndRetry (nextTimer initial) 3 =
     [EvClose, EvTimeout 1, EvClose, EvTimeout 2, EvClose, EvTimeout 3] \<and>
   socketsCreated (snd (run exampleEnv initial (closeAndRetry (nextTimer initial) 3))) =
     [''wss://api.example.com/api/v1/live/stream'', ''wss://api.example.com/api/v1/live/stream'',
      ''wss://api.example.com/api/v1/live/stream''] \<and>
   scheduledDelays (snd (run exampleEnv initial (closeAndRetry (nextTimer initial) 3)))
     = [3000, 6000, 9000]"
proof -
  have h1: "reconnectAttempts initial = 0" by (simp add: initial_def)
  have h2: "EvOpen \<notin> set threeCloses" by (simp add: threeCloses_def)
  have h3: "count_list threeCloses EvClose = 3" by (simp add: threeCloses_def)
  have h4: "3 < MAX_RECONNECT_ATTEMPTS" by (simp add: MAX_RECONNECT_ATTEMPTS_def)
  have h5: "run exampleEnv initial threeCloses =
    (fst (run exampleEnv initial threeCloses), snd (run exampleEnv initial threeCloses))" by simp
  have h6: "acceptsUrl exampleEnv ''wss://api.example.com/api/v1/live/stream''"
    by (simp add: exampleEnv_def)
  have up: "[1..<Suc 3] = [1, 2, 3]" by (simp add: upt_rec)
  have three: "replicate 3 x = [x, x, x]" for x :: string
    by (simp add: numeral_3_eq_3)
  have loop: "closeAndRetry (nextTimer initial) 3 =
     [EvClose, EvTimeout 1, EvClose, EvTimeout 2, EvClose, EvTimeout 3]"
    by (simp add: initial_def numeral_3_eq_3)
  from reconnects_after_closes [OF h1 h2 h3 h4 h5,
      of "''wss://api.example.com/api/v1/live/stream''"] connectUrl_exampleEnv h6
  have "reconnectAttempts (fst (run exampleEnv initial threeCloses)) = 3"
    and "scheduledDelays (snd (run exampleEnv initial threeCloses))
      = map (\<lambda>attempt. min (3000 * attempt) 30000) [1..<Suc 3]"
    and "socketsCreated (snd (run exampleEnv initial (closeAndRetry (nextTimer initial) 3)))
      = replicate 3 ''wss://api.example.com/api/v1/live/stream''"
    and "scheduledDelays (snd (run exampleEnv initial (closeAndRetry (nextTimer initial) 3)))
      = map (\<lambda>attempt. min (3000 * attempt) 30000) [1..<Suc 3]"
    by blast+
  with h1 h2 h3 h4 h6 connectUrl_exampleEnv loop show ?thesis
    by (simp only: up three list.map) simp
qed

text \<open>
  C3. Once the retry counter stands at the maximum of ten, then as long as no open
  event occurs, no event schedules a reconnect and the counter stays at ten; the
  only sockets still constructed are those of timeouts that were pending already,
  and the connected flag is never set: it is off after the first close event, and
  stays as it was before.
\<close>

theorem no_reconnect_after_exhaustion:
  assumes "reconnectAttempts c = MAX_RECONNECT_ATTEMPTS" and "EvOpen \<notin> set evs"
    and "run env c evs = (c', out)"
  shows "scheduledDelays out = [] \<and> reconnectAttempts c' = MAX_RECONNECT_ATTEMPTS \<and>
    length (socketsCreated out) + length (timeouts c') \<le> length (timeouts c) \<and>
    isConnected c' = (isConnected c \<and> EvClose \<notin> set evs)"
proof -
  have le: "reconnectAttempts c \<le> MAX_RECONNECT_ATTEMPTS"
    using assms(1) by simp
  from run_no_open [OF assms(2) assms(3) le] assms(1)
  have "scheduledDelays out = []" "reconnectAttempts c' = MAX_RECONNECT_ATTEMPTS"
    by simp_all
  with run_exhausted [OF assms(2) assms(3) assms(1)] show ?thesis by simp
qed

theorem no_reconnect_after_exhaustion_witness:
  "reconnectAttempts exhausted = MAX_RECONNECT_ATTEMPTS \<and> EvOpen \<notin> set closesAfterExhaustion \<and>
   scheduledDelays (snd (run exampleEnv exhausted closesAfterExhaustion)) = [] \<and>
   socketsCreated (snd (run exampleEnv exhausted closesAfterExhaustion)) = [] \<and>
   reconnectAttempts (fst (run exampleEnv exhausted closesAfterExhaustion)) = 10 \<and>
   \<not> isConnected (fst (run exampleEnv exhausted closesAfterExhaustion))"
proof -
  have h1: "reconnectAttempts exhausted = MAX_RECONNECT_ATTEMPTS"
    by (simp add: exhausted_def MAX_RECONNECT_ATTEMPTS_def)
  have h2: "EvOpen \<notin> set closesAfterExhaustion" by (simp add: closesAfterExhaustion_def)
  have h3: "run exampleEnv exhausted closesAfterExhaustion =
    (fst (run exampleEnv exhausted closesAfterExhaustion),
     snd (run exampleEnv exhausted closesAfterExhaustion))" by simp
  have h4: "timeouts exhausted = []" by (simp add: exhausted_def initial_def)
  have h5: "EvClose \<in> set closesAfterExhaustion" by (simp add: closesAfterExhaustion_def)
  from no_reconnect_after_exhaustion [OF h1 h2 h3] h1 h2 h4 h5 show ?thesis
    by (simp add: MAX_RECONNECT_ATTEMPTS_def)
qed

subsection \<open>Connecting\<close>

text \<open>
  C7. \<^verbatim>\<open>connect\<close> does nothing when the socket in \<^verbatim>\<open>wsRef\<close> is open. An open event
  resets the retry counter to zero, sets the connected flag and starts an interval
  of 30000 milliseconds; when that interval fires, a ping command is sent over the
  open socket.
\<close>

theorem connect_and_open:
  "(socketOpen c \<longrightarrow> connect env c = Inr (c, [])) \<and>
   (step env c EvOpen = (c', out) \<longrightarrow>
      reconnectAttempts c' = 0 \<and> isConnected c' \<and>
      pingInterval c' = Some (nextTimer c) \<and>
      intervals c' = intervals c @ [(nextTimer c, 30000)] \<and>
      out = [ConsoleLog ''WebSocket connected'', SetIntervalPing (nextTimer c) 30000] \<and>
      (wsRef c \<noteq> None \<longrightarrow>
         socketOpen c' \<and> step env c' (EvInterval (nextTimer c)) = (c', [WsSend PingCommand])))"
proof -
  have a: "socketOpen c \<longrightarrow> connect env c = Inr (c, [])"
    by (simp add: connect_def)
  have b: "step env c EvOpen = (c', out) \<longrightarrow>
      reconnectAttempts c' = 0 \<and> isConnected c' \<and>
      pingInterval c' = Some (nextTimer c) \<and>
      intervals c' = intervals c @ [(nextTimer c, 30000)] \<and>
      out = [ConsoleLog ''WebSocket connected'', SetIntervalPing (nextTimer c) 30000] \<and>
      (wsRef c \<noteq> None \<longrightarrow>
         socketOpen c' \<and> step env c' (EvInterval (nextTimer c)) = (c', [WsSend PingCommand]))"
    by (auto simp: step_def onopen_def setReadyState_def Let_def sendCommand_eq socketOpen_def split: option.splits)
  from a b show ?thesis by blast
qed

theorem connect_and_open_witness:
  "socketOpen (fst (step exampleEnv connecting EvOpen)) \<and>
   connect exampleEnv (fst (step exampleEnv connecting EvOpen)) = Inr (fst (step exampleEnv connecting EvOpen), []) \<and>
   reconnectAttempts (fst (step exampleEnv connecting EvOpen)) = 0 \<and>
   isConnected (fst (step exampleEnv connecting EvOpen)) \<and>
   snd (step exampleEnv connecting EvOpen) = [ConsoleLog ''WebSocket connected'', SetIntervalPing 1 30000] \<and>
   snd (step exampleEnv (fst (step exampleEnv connecting EvOpen)) (EvInterval 1)) = [WsSend PingCommand]"
proof -
  let ?c' = "fst (step exampleEnv connecting EvOpen)"
  let ?out = "snd (step exampleEnv connecting EvOpen)"
  have h1: "step exampleEnv connecting EvOpen = (?c', ?out)" by simp
  have h2: "wsRef connecting \<noteq> None" by (simp add: connecting_def)
  have h3: "nextTimer connecting = 1" by (simp add: connecting_def initial_def)
  from connect_and_open [of connecting exampleEnv ?c' ?out] h1 h2
  have open1: "socketOpen ?c'" and rest: "reconnectAttempts ?c' = 0" "isConnected ?c'"
    "?out = [ConsoleLog ''WebSocket connected'', SetIntervalPing (nextTimer connecting) 30000]"
    "step exampleEnv ?c' (EvInterval (nextTimer connecting)) = (?c', [WsSend PingCommand])"
    by blast+
  from connect_and_open [of ?c' exampleEnv ?c' ?out] open1
  have "connect exampleEnv ?c' = Inr (?c', [])" by blast
  with open1 rest h3 show ?thesis by simp
qed

subsection \<open>Tracked prices\<close>

lemma sliceLast_short: "length xs \<le> n \<Longrightarrow> sliceLast n xs = xs"
  by (simp add: sliceLast_def)

lemma sliceLast_append: "sliceLast n (sliceLast n xs @ ys) = sliceLast n (xs @ ys)"
proof (cases "length xs \<le> n")
  case True
  then show ?thesis by (simp add: sliceLast_short)
next
  case False
  then have "length xs + length ys - n = (length xs - n) + length ys" by simp
  with False show ?thesis by (simp add: sliceLast_def add.commute)
qed

lemma pushPrice_eq:
  "pushPrice env now tok next =
     (case price_usd tok of
        None \<Rightarrow> next
      | Some price \<Rightarrow>
          next(toUpperCase env (TrackedTokenPrice.symbol tok) \<mapsto>
            sliceLast 500 ((case next (toUpperCase env (TrackedTokenPrice.symbol tok)) of
                              Some old \<Rightarrow> old | None \<Rightarrow> []) @ [\<lparr>t = now, p = price\<rparr>])))"
  by (simp add: pushPrice_def Let_def sliceLast_short split: option.splits)

lemma find_append:
  "List.find P (xs @ ys) = (case List.find P xs of None \<Rightarrow> List.find P ys | Some x \<Rightarrow> Some x)"
  by (induction xs) simp_all

lemma fold_upsertPrice:
  "fold (upsertPrice env) tokens m k =
     (case List.find (\<lambda>tok. toUpperCase env (TrackedTokenPrice.symbol tok) = k) (rev tokens) of
        Some tok \<Rightarrow> Some tok | None \<Rightarrow> m k)"
proof (induction tokens arbitrary: m)
  case Nil
  then show ?case by simp
next
  case (Cons tok tokens)
  let ?P = "\<lambda>tok. toUpperCase env (TrackedTokenPrice.symbol tok) = k"
  have "fold (upsertPrice env) (tok # tokens) m k = fold (upsertPrice env) tokens (upsertPrice env tok m) k"
    by simp
  also have "\<dots> = (case List.find ?P (rev tokens) of
      Some tok' \<Rightarrow> Some tok' | None \<Rightarrow> upsertPrice env tok m k)"
    by (rule Cons.IH)
  also have "\<dots> = (case List.find ?P (rev (tok # tokens)) of
      Some tok' \<Rightarrow> Some tok' | None \<Rightarrow> m k)"
    by (simp add: find_append upsertPrice_def split: option.splits)
  finally show ?case .
qed

lemma pointsFor_Cons:
  "pointsFor env now k (tok # tokens) =
     (case price_usd tok of
        None \<Rightarrow> pointsFor env now k tokens
      | Some price \<Rightarrow>
          if toUpperCase env (TrackedTokenPrice.symbol tok) = k
          then \<lparr>t = now, p = price\<rparr> # pointsFor env now k tokens
          else pointsFor env now k tokens)"
  by (simp add: pointsFor_def split: option.splits)

lemma fold_pushPrice:
  "fold (pushPrice env now) tokens m k =
     (if pointsFor env now k tokens = [] then m k
      else Some (sliceLast 500 ((case m k of Some old \<Rightarrow> old | None \<Rightarrow> []) @ pointsFor env now k tokens)))"
proof (induction tokens arbitrary: m)
  case Nil
  then show ?case by (simp add: pointsFor_def)
next
  case (Cons tok tokens)
  let ?m1 = "pushPrice env now tok m"
  have step: "fold (pushPrice env now) (tok # tokens) m k =
      (if pointsFor env now k tokens = [] then ?m1 k
       else Some (sliceLast 500 ((case ?m1 k of Some old \<Rightarrow> old | None \<Rightarrow> []) @ pointsFor env now k tokens)))"
    using Cons.IH [of ?m1] by simp
  show ?case
  proof (cases "price_usd tok")
    case None
    then have "?m1 = m" by (simp add: pushPrice_eq)
    with step None show ?thesis by (simp add: pointsFor_Cons)
  next
    case (Some price)
    show ?thesis
    proof (cases "toUpperCase env (TrackedTokenPrice.symbol tok) = k")
      case True
      let ?old = "case m k of Some old \<Rightarrow> old | None \<Rightarrow> []"
      from True Some have m1: "?m1 k = Some (sliceLast 500 (?old @ [\<lparr>t = now, p = price\<rparr>]))"
        by (simp add: pushPrice_eq)
      have "sliceLast 500 (sliceLast 500 (?old @ [\<lparr>t = now, p = price\<rparr>]) @ pointsFor env now k tokens)
          = sliceLast 500 ((?old @ [\<lparr>t = now, p = price\<rparr>]) @ pointsFor env now k tokens)"
        by (rule sliceLast_append)
      with step m1 True Some show ?thesis by (simp add: pointsFor_Cons)
    next
      case False
      with Some have "?m1 k = m k" by (simp add: pushPrice_eq)
      with step False Some show ?thesis by (simp add: pointsFor_Cons)
    qed
  qed
qed

lemma handleMessage_Parsed: "handleMessage env now c (Parsed m) = Inr (dispatch env now c m)"
  by (simp add: handleMessage_def try_catch_def)

lemma upper_btc: "toUpperCase env ''btc'' = ''BTC''"
proof -
  have "isAscii ''btc''" by code_simp
  moreover have "map upperChar ''btc'' = ''BTC''" by code_simp
  ultimately show ?thesis by (simp add: toUpperCase_def)
qed

lemma upper_BTC: "toUpperCase env ''BTC'' = ''BTC''"
proof -
  have "isAscii ''BTC''" by code_simp
  moreover have "map upperChar ''BTC'' = ''BTC''" by code_simp
  ultimately show ?thesis by (simp add: toUpperCase_def)
qed

text \<open>
  C10. A \<^verbatim>\<open>tracked_price_update\<close> message is handled without a trace, and afterwards
  each key of the price map holds the last token of the message whose symbol, put
  through \<^verbatim>\<open>toUpperCase\<close>, is that key (and what it held before when there is none),
  while each key of the price-history map has gained the points of the tokens with
  that upper-cased symbol and a price that is not \<^verbatim>\<open>null\<close>, cut to the last 500. So
  both maps are keyed by the upper-cased symbol, and a token whose price is \<^verbatim>\<open>null\<close> is
  stored in the price map and adds nothing to the history. This holds for every
  symbol and for every case mapping the engine has outside ASCII.
\<close>

theorem tracked_price_update_keys:
  "\<exists>c'. handleMessage env now c (Parsed (TrackedPriceUpdateMessage (Some tokens))) = Inr (c', []) \<and>
     (\<forall>k. trackedPrices c' k =
        (case List.find (\<lambda>tok. toUpperCase env (TrackedTokenPrice.symbol tok) = k) (rev tokens) of
           Some tok \<Rightarrow> Some tok | None \<Rightarrow> trackedPrices c k)) \<and>
     (\<forall>k. priceHistory c' k =
        (if pointsFor env now k tokens = [] then priceHistory c k
         else Some (sliceLast 500 (history c k @ pointsFor env now k tokens)))) \<and>
     (price_usd tok = None \<longrightarrow>
        handleMessage env now c (Parsed (TrackedPriceUpdateMessage (Some [tok]))) =
          Inr (c\<lparr>trackedPrices := (trackedPrices c)(toUpperCase env (TrackedTokenPrice.symbol tok) \<mapsto> tok)\<rparr>, []))"
proof -
  let ?c' = "c\<lparr>trackedPrices := fold (upsertPrice env) tokens (trackedPrices c),
        priceHistory := fold (pushPrice env now) tokens (priceHistory c)\<rparr>"
  have res: "handleMessage env now c (Parsed (TrackedPriceUpdateMessage (Some tokens))) = Inr (?c', [])"
    by (simp add: handleMessage_Parsed)
  have prices: "\<forall>k. trackedPrices ?c' k =
        (case List.find (\<lambda>tok. toUpperCase env (TrackedTokenPrice.symbol tok) = k) (rev tokens) of
           Some tok \<Rightarrow> Some tok | None \<Rightarrow> trackedPrices c k)"
    by (simp add: fold_upsertPrice)
  have hist: "\<forall>k. priceHistory ?c' k =
        (if pointsFor env now k tokens = [] then priceHistory c k
         else Some (sliceLast 500 (history c k @ pointsFor env now k tokens)))"
    by (simp add: fold_pushPrice history_def)
  have null: "price_usd tok = None \<longrightarrow>
        handleMessage env now c (Parsed (TrackedPriceUpdateMessage (Some [tok]))) =
          Inr (c\<lparr>trackedPrices := (trackedPrices c)(toUpperCase env (TrackedTokenPrice.symbol tok) \<mapsto> tok)\<rparr>, [])"
    by (simp add: handleMessage_Parsed upsertPrice_def pushPrice_eq)
  show ?thesis
  proof (intro exI conjI)
    show "handleMessage env now c (Parsed (TrackedPriceUpdateMessage (Some tokens))) = Inr (?c', [])"
      by (rule res)
  qed (rule prices hist null)+
qed

theorem tracked_price_update_keys_witness:
  "price_usd btcToken = None \<and> TrackedTokenPrice.symbol btcToken = ''btc'' \<and>
   handleMessage exampleEnv ''2026-01-01T00:00:00.000Z'' initial
       (Parsed (TrackedPriceUpdateMessage (Some [btcToken])))
     = Inr (initial\<lparr>trackedPrices := (trackedPrices initial)(''BTC'' \<mapsto> btcToken)\<rparr>, []) \<and>
   toUpperCase exampleEnv ''az`{AZ09 _'' = ''AZ`{AZ09 _'' \<and>
   price_usd accentToken = None \<and>
   TrackedTokenPrice.symbol accentToken = [CHR 0xC3, CHR 0xA9] \<and>
   handleMessage exampleEnv ''2026-01-01T00:00:00.000Z'' initial
       (Parsed (TrackedPriceUpdateMessage (Some [accentToken])))
     = Inr (initial\<lparr>trackedPrices :=
              (trackedPrices initial)([CHR 0xC3, CHR 0x89] \<mapsto> accentToken)\<rparr>, [])"
proof -
  have h: "price_usd btcToken = None" by (simp add: btcToken_def)
  have s: "TrackedTokenPrice.symbol btcToken = ''btc''" by (simp add: btcToken_def)
  have k: "toUpperCase exampleEnv (TrackedTokenPrice.symbol btcToken) = ''BTC''"
    by (simp add: btcToken_def upper_btc)
  have h': "price_usd accentToken = None" by (simp add: accentToken_def btcToken_def)
  have s': "TrackedTokenPrice.symbol accentToken = [CHR 0xC3, CHR 0xA9]"
    by (simp add: accentToken_def)
  have "toUpperCase exampleEnv [CHR 0xC3, CHR 0xA9] = [CHR 0xC3, CHR 0x89]"
    by code_simp
  with s' have k': "toUpperCase exampleEnv (TrackedTokenPrice.symbol accentToken) = [CHR 0xC3, CHR 0x89]"
    by simp
  from tracked_price_update_keys [of exampleEnv "''2026-01-01T00:00:00.000Z''" initial "[btcToken]" btcToken] h
  have a: "handleMessage exampleEnv ''2026-01-01T00:00:00.000Z'' initial
       (Parsed (TrackedPriceUpdateMessage (Some [btcToken])))
     = Inr (initial\<lparr>trackedPrices := (trackedPrices initial)
              (toUpperCase exampleEnv (TrackedTokenPrice.symbol btcToken) \<mapsto> btcToken)\<rparr>, [])"
    by blast
  from tracked_price_update_keys [of exampleEnv "''2026-01-01T00:00:00.000Z''" initial "[accentToken]" accentToken] h'
  have b: "handleMessage exampleEnv ''2026-01-01T00:00:00.000Z'' initial
       (Parsed (TrackedPriceUpdateMessage (Some [accentToken])))
     = Inr (initial\<lparr>trackedPrices := (trackedPrices initial)
              (toUpperCase exampleEnv (TrackedTokenPrice.symbol accentToken) \<mapsto> accentToken)\<rparr>, [])"
    by blast
  have edge: "toUpperCase exampleEnv ''az`{AZ09 _'' = ''AZ`{AZ09 _''"
    by code_simp
  from a b h s k h' s' k' edge show ?thesis by (simp only: simp_thms)
qed

lemma step_message: "step env c (EvMessage now (Parsed m)) = dispatch env now c m"
  by (simp add: step_def handleMessage_Parsed)

text \<open>
  C6. From the initial state, a \<^verbatim>\<open>tracked_price_update\<close> for BTC at 65000 followed by
  one at 66000 leaves the later token under BTC in the price map, and both points
  under BTC in the price history, 65000 before 66000.
\<close>

theorem btc_price_replaced_history_kept:
  "trackedPrices (fst (run env initial
      [EvMessage t1 (Parsed (TrackedPriceUpdateMessage
         (Some [tok1\<lparr>TrackedTokenPrice.symbol := ''BTC'', price_usd := Some 65000\<rparr>]))),
       EvMessage t2 (Parsed (TrackedPriceUpdateMessage
         (Some [tok2\<lparr>TrackedTokenPrice.symbol := ''BTC'', price_usd := Some 66000\<rparr>])))])) ''BTC''
     = Some (tok2\<lparr>TrackedTokenPrice.symbol := ''BTC'', price_usd := Some 66000\<rparr>) \<and>
   priceHistory (fst (run env initial
      [EvMessage t1 (Parsed (TrackedPriceUpdateMessage
         (Some [tok1\<lparr>TrackedTokenPrice.symbol := ''BTC'', price_usd := Some 65000\<rparr>]))),
       EvMessage t2 (Parsed (TrackedPriceUpdateMessage
         (Some [tok2\<lparr>TrackedTokenPrice.symbol := ''BTC'', price_usd := Some 66000\<rparr>])))])) ''BTC''
     = Some [\<lparr>t = t1, p = 65000\<rparr>, \<lparr>t = t2, p = 66000\<rparr>]"
proof -
  let ?a = "tok1\<lparr>TrackedTokenPrice.symbol := ''BTC'', price_usd := Some 65000\<rparr>"
  let ?b = "tok2\<lparr>TrackedTokenPrice.symbol := ''BTC'', price_usd := Some 66000\<rparr>"
  let ?c1 = "initial\<lparr>trackedPrices := [''BTC'' \<mapsto> ?a],
      priceHistory := [''BTC'' \<mapsto> [\<lparr>t = t1, p = 65000\<rparr>]]\<rparr>"
  let ?c2 = "?c1\<lparr>trackedPrices := [''BTC'' \<mapsto> ?b],
      priceHistory := [''BTC'' \<mapsto> [\<lparr>t = t1, p = 65000\<rparr>, \<lparr>t = t2, p = 66000\<rparr>]]\<rparr>"
  have first: "step env initial (EvMessage t1 (Parsed (TrackedPriceUpdateMessage (Some [?a])))) = (?c1, [])"
    by (simp add: step_message upsertPrice_def pushPrice_eq upper_BTC sliceLast_short initial_def)
  have second: "step env ?c1 (EvMessage t2 (Parsed (TrackedPriceUpdateMessage (Some [?b])))) = (?c2, [])"
    by (simp add: step_message upsertPrice_def pushPrice_eq upper_BTC sliceLast_short)
  have "run env initial
      [EvMessage t1 (Parsed (TrackedPriceUpdateMessage (Some [?a]))),
       EvMessage t2 (Parsed (TrackedPriceUpdateMessage (Some [?b])))] = (?c2, [])"
    by (simp only: run.simps first second prod.case append_Nil)
  then show ?thesis
    by simp
qed

subsection \<open>Bounded buffers\<close>

lemma take_append_take: "take n (ys @ take n zs) = take n (ys @ zs)"
  by (simp add: min_def)

lemma run_signals:
  "signals (fst (run env c (signalEvents now xs))) =
     (if xs = [] then signals c else take 100 (rev xs @ signals c))"
proof (induction xs arbitrary: c)
  case Nil
  then show ?case by (simp add: signalEvents_def)
next
  case (Cons d xs)
  let ?c1 = "c\<lparr>signals := take MAX_SIGNALS (d # signals c)\<rparr>"
  have "signals (fst (run env c (signalEvents now (d # xs)))) =
      signals (fst (run env ?c1 (signalEvents now xs)))"
    by (simp add: signalEvents_def step_message split: prod.splits)
  also have "\<dots> = (if xs = [] then signals ?c1 else take 100 (rev xs @ signals ?c1))"
    by (rule Cons.IH)
  also have "\<dots> = take 100 (rev (d # xs) @ signals c)"
    using take_append_take [of 100 "rev xs" "d # signals c"] by (simp add: MAX_SIGNALS_def)
  finally show ?case by simp
qed

lemma run_marketUpdates:
  "marketUpdates (fst (run env c (marketEvents now xs))) =
     (if xs = [] then marketUpdates c else take 100 (rev xs @ marketUpdates c))"
proof (induction xs arbitrary: c)
  case Nil
  then show ?case by (simp add: marketEvents_def)
next
  case (Cons m xs)
  let ?c1 = "c\<lparr>marketUpdates := take MAX_SIGNALS (m # marketUpdates c)\<rparr>"
  have "marketUpdates (fst (run env c (marketEvents now (m # xs)))) =
      marketUpdates (fst (run env ?c1 (marketEvents now xs)))"
    by (simp add: marketEvents_def step_message split: prod.splits)
  also have "\<dots> = (if xs = [] then marketUpdates ?c1 else take 100 (rev xs @ marketUpdates ?c1))"
    by (rule Cons.IH)
  also have "\<dots> = take 100 (rev (m # xs) @ marketUpdates c)"
    using take_append_take [of 100 "rev xs" "m # marketUpdates c"] by (simp add: MAX_SIGNALS_def)
  finally show ?case by simp
qed

lemma run_channelMessages:
  "channelMessages (fst (run env c (channelEvents now xs))) =
     (if xs = [] then channelMessages c else take 200 (rev xs @ channelMessages c))"
proof (induction xs arbitrary: c)
  case Nil
  then show ?case by (simp add: channelEvents_def)
next
  case (Cons cm xs)
  let ?c1 = "c\<lparr>channelMessages := take 200 (cm # channelMessages c)\<rparr>"
  have "channelMessages (fst (run env c (channelEvents now (cm # xs)))) =
      channelMessages (fst (run env ?c1 (channelEvents now xs)))"
    by (simp add: channelEvents_def step_message split: prod.splits)
  also have "\<dots> = (if xs = [] then channelMessages ?c1 else take 200 (rev xs @ channelMessages ?c1))"
    by (rule Cons.IH)
  also have "\<dots> = take 200 (rev (cm # xs) @ channelMessages c)"
    using take_append_take [of 200 "rev xs" "cm # channelMessages c"] by simp
  finally show ?case by simp
qed

lemma run_trackedTransfers:
  "trackedTransfers (fst (run env c (transferEvents now xs))) =
     (if xs = [] then trackedTransfers c else take 50 (rev xs @ trackedTransfers c))"
proof (induction xs arbitrary: c)
  case Nil
  then show ?case by (simp add: transferEvents_def)
next
  case (Cons d xs)
  let ?c1 = "c\<lparr>trackedTransfers := take 50 (d # trackedTransfers c)\<rparr>"
  have "trackedTransfers (fst (run env c (transferEvents now (d # xs)))) =
      trackedTransfers (fst (run env ?c1 (transferEvents now xs)))"
    by (simp add: transferEvents_def step_message split: prod.splits)
  also have "\<dots> = (if xs = [] then trackedTransfers ?c1 else take 50 (rev xs @ trackedTransfers ?c1))"
    by (rule Cons.IH)
  also have "\<dots> = take 50 (rev (d # xs) @ trackedTransfers c)"
    using take_append_take [of 50 "rev xs" "d # trackedTransfers c"] by simp
  finally show ?case by simp
qed

lemma point_eta: "\<lparr>t = t pt, p = p pt\<rparr> = pt"
  by (cases pt) simp

lemma run_priceHistory:
  "priceHistory (fst (run env c (priceEvents tok pts))) (toUpperCase env (TrackedTokenPrice.symbol tok)) =
     (if pts = [] then priceHistory c (toUpperCase env (TrackedTokenPrice.symbol tok))
      else Some (sliceLast 500 (history c (toUpperCase env (TrackedTokenPrice.symbol tok)) @ pts)))"
proof (induction pts arbitrary: c)
  case Nil
  then show ?case by (simp add: priceEvents_def)
next
  case (Cons pt pts)
  let ?k = "toUpperCase env (TrackedTokenPrice.symbol tok)"
  let ?tok = "tok\<lparr>price_usd := Some (p pt)\<rparr>"
  let ?c1 = "c\<lparr>trackedPrices := (trackedPrices c)(?k \<mapsto> ?tok),
      priceHistory := (priceHistory c)(?k \<mapsto> sliceLast 500 (history c ?k @ [pt]))\<rparr>"
  have one: "dispatch env (t pt) c (TrackedPriceUpdateMessage (Some [?tok])) = (?c1, [])"
    by (simp add: upsertPrice_def pushPrice_eq history_def point_eta)
  have "priceHistory (fst (run env c (priceEvents tok (pt # pts)))) ?k =
      priceHistory (fst (run env ?c1 (priceEvents tok pts))) ?k"
    by (simp add: priceEvents_def step_message one del: dispatch.simps split: prod.splits)
  also have "\<dots> = (if pts = [] then priceHistory ?c1 ?k
      else Some (sliceLast 500 (history ?c1 ?k @ pts)))"
    by (rule Cons.IH)
  also have "\<dots> = Some (sliceLast 500 (history c ?k @ pt # pts))"
    using sliceLast_append [of 500 "history c ?k @ [pt]" pts] by (simp add: history_def)
  finally show ?case by simp
qed

text \<open>
  C1 (as amended). After more than \<open>N\<close> insertions the signals (\<open>N\<close> = 100), market
  updates (100), channel messages (200) and tracked transfers (50) hold exactly the
  \<open>N\<close> items inserted last, newest first; signals with the ids 1 to 150 leave the ids
  150 down to 51. The price history of a symbol (500) also holds exactly the 500
  points inserted last, but in insertion order, oldest first.
\<close>

theorem bounded_buffers:
  "(100 < length sigs \<longrightarrow>
      signals (fst (run env c (signalEvents now sigs))) = take 100 (rev sigs) \<and>
      length (signals (fst (run env c (signalEvents now sigs)))) = 100) \<and>
   (100 < length mus \<longrightarrow>
      marketUpdates (fst (run env c (marketEvents now mus))) = take 100 (rev mus) \<and>
      length (marketUpdates (fst (run env c (marketEvents now mus)))) = 100) \<and>
   (200 < length cms \<longrightarrow>
      channelMessages (fst (run env c (channelEvents now cms))) = take 200 (rev cms) \<and>
      length (channelMessages (fst (run env c (channelEvents now cms)))) = 200) \<and>
   (50 < length trs \<longrightarrow>
      trackedTransfers (fst (run env c (transferEvents now trs))) = take 50 (rev trs) \<and>
      length (trackedTransfers (fst (run env c (transferEvents now trs)))) = 50) \<and>
   (500 < length pts \<longrightarrow>
      priceHistory (fst (run env c (priceEvents tok pts))) (toUpperCase env (TrackedTokenPrice.symbol tok))
        = Some (drop (length pts - 500) pts) \<and>
      length (drop (length pts - 500) pts) = 500) \<and>
   map SignalData.id (signals (fst (run env c (signalEvents now signals150))))
     = map real (rev [51..<151])"
proof -
  have sigs: "100 < length sigs \<longrightarrow>
      signals (fst (run env c (signalEvents now sigs))) = take 100 (rev sigs) \<and>
      length (signals (fst (run env c (signalEvents now sigs)))) = 100"
    by (auto simp: run_signals)
  have mus: "100 < length mus \<longrightarrow>
      marketUpdates (fst (run env c (marketEvents now mus))) = take 100 (rev mus) \<and>
      length (marketUpdates (fst (run env c (marketEvents now mus)))) = 100"
    by (auto simp: run_marketUpdates)
  have cms: "200 < length cms \<longrightarrow>
      channelMessages (fst (run env c (channelEvents now cms))) = take 200 (rev cms) \<and>
      length (channelMessages (fst (run env c (channelEvents now cms)))) = 200"
    by (auto simp: run_channelMessages)
  have trs: "50 < length trs \<longrightarrow>
      trackedTransfers (fst (run env c (transferEvents now trs))) = take 50 (rev trs) \<and>
      length (trackedTransfers (fst (run env c (transferEvents now trs)))) = 50"
    by (auto simp: run_trackedTransfers)
  have pts: "500 < length pts \<longrightarrow>
      priceHistory (fst (run env c (priceEvents tok pts))) (toUpperCase env (TrackedTokenPrice.symbol tok))
        = Some (drop (length pts - 500) pts) \<and>
      length (drop (length pts - 500) pts) = 500"
    by (auto simp: run_priceHistory sliceLast_def)
  have len: "length signals150 = 150"
    by (simp add: signals150_def)
  have "signals (fst (run env c (signalEvents now signals150))) = take 100 (rev signals150)"
    using len by (auto simp: run_signals)
  also have "\<dots> = rev (drop 50 signals150)"
    using len by (simp add: take_rev)
  also have "\<dots> = rev (map (\<lambda>i. exampleSignal\<lparr>SignalData.id := real i\<rparr>) [51..<151])"
    by (simp add: signals150_def drop_map)
  finally have ex: "map SignalData.id (signals (fst (run env c (signalEvents now signals150))))
     = map real (rev [51..<151])"
    by (simp add: rev_map comp_def)
  from sigs mus cms trs pts ex show ?thesis by blast
qed

theorem bounded_buffers_witness:
  "100 < length signals150 \<and>
   signals (fst (run exampleEnv initial (signalEvents ''2026-01-01T00:00:00.000Z'' signals150)))
     = take 100 (rev signals150) \<and>
   length (signals (fst (run exampleEnv initial (signalEvents ''2026-01-01T00:00:00.000Z'' signals150)))) = 100 \<and>
   500 < length points501 \<and>
   priceHistory (fst (run exampleEnv initial (priceEvents btcToken points501))) ''BTC''
     = Some (drop 1 points501)"
proof -
  have h1: "100 < length signals150" by (simp add: signals150_def)
  have h2: "500 < length points501" by (simp add: points501_def)
  have k: "toUpperCase exampleEnv (TrackedTokenPrice.symbol btcToken) = ''BTC''"
    by (simp add: btcToken_def upper_btc)
  have l: "length points501 - 500 = 1" by (simp add: points501_def)
  from bounded_buffers [of signals150 exampleEnv initial "''2026-01-01T00:00:00.000Z''"
      "[]" "[]" "[]" points501 btcToken] h1 h2
  have "signals (fst (run exampleEnv initial (signalEvents ''2026-01-01T00:00:00.000Z'' signals150)))
     = take 100 (rev signals150)"
    and "length (signals (fst (run exampleEnv initial (signalEvents ''2026-01-01T00:00:00.000Z'' signals150)))) = 100"
    and "priceHistory (fst (run exampleEnv initial (priceEvents btcToken points501)))
        (toUpperCase exampleEnv (TrackedTokenPrice.symbol btcToken)) = Some (drop (length points501 - 500) points501)"
    by blast+
  with h1 h2 k l show ?thesis by simp
qed

text \<open>
  C1 as stated fails for the price history: after 501 points for BTC the history
  starts with the second point, not with the newest.
\<close>

theorem price_history_is_oldest_first:
  "500 < length points501 \<and>
   priceHistory (fst (run exampleEnv initial (priceEvents btcToken points501))) ''BTC''
     \<noteq> Some (take 500 (rev points501)) \<and>
   priceHistory (fst (run exampleEnv initial (priceEvents btcToken points501))) ''BTC''
     = Some (drop 1 points501)"
proof -
  have len: "length points501 = 501" by (simp add: points501_def)
  have k: "toUpperCase exampleEnv (TrackedTokenPrice.symbol btcToken) = ''BTC''"
    by (simp add: btcToken_def upper_btc)
  have "priceHistory (fst (run exampleEnv initial (priceEvents btcToken points501)))
      (toUpperCase exampleEnv (TrackedTokenPrice.symbol btcToken))
      = Some (sliceLast 500 (history initial (toUpperCase exampleEnv (TrackedTokenPrice.symbol btcToken)) @ points501))"
    using len by (auto simp: run_priceHistory)
  with k len have stored: "priceHistory (fst (run exampleEnv initial (priceEvents btcToken points501))) ''BTC''
      = Some (drop 1 points501)"
    by (simp add: history_def initial_def sliceLast_def)
  have "hd (drop 1 points501) = points501 ! 1"
    using len by (simp add: hd_drop_conv_nth)
  then have first: "p (hd (drop 1 points501)) = 2"
    by (simp add: points501_def)
  have "hd (take 500 (rev points501)) = last points501"
    by (simp add: hd_rev)
  also have "\<dots> = points501 ! 500"
  proof -
    from len have "points501 \<noteq> []" by auto
    from last_conv_nth [OF this] len show ?thesis by simp
  qed
  finally have newest: "p (hd (take 500 (rev points501))) = 501"
    by (simp add: points501_def)
  from first newest have "drop 1 points501 \<noteq> take 500 (rev points501)"
    by auto
  with stored len show ?thesis by simp
qed

subsection \<open>The endpoint\<close>

lemma apiDerivedUrl_stripBase:
  "apiDerivedUrl a =
     stripBase (replaceScheme a (if startsWith a ''https'' then ''wss://'' else ''ws://''))
       @ ''/api/v1/live/stream''"
  by (simp add: apiDerivedUrl_def stripBase_def Let_def)

lemma stripBase_clean:
  "\<not> endsWith (w @ h) ''/'' \<Longrightarrow> \<not> endsWith (w @ h) ''/api/v1'' \<Longrightarrow> stripBase (w @ h) = w @ h"
  by (simp add: stripBase_def)

lemma stripBase_slash:
  assumes "\<not> endsWith (w @ h) ''/api/v1''"
  shows "stripBase (w @ h @ ''/'') = w @ h"
proof -
  have e: "endsWith (w @ h @ ''/'') ''/''"
    by (simp add: endsWith_def)
  have b: "butlast (w @ h @ ''/'') = w @ h"
    by (simp add: butlast_append)
  from assms e b show ?thesis
    by (simp only: stripBase_def Let_def if_True if_False)
qed

lemma stripBase_api:
  "stripBase (w @ h @ ''/api/v1'') = w @ h"
proof -
  have n: "\<not> endsWith (w @ h @ ''/api/v1'') ''/''"
    by (simp add: endsWith_def)
  have e: "endsWith (w @ h @ ''/api/v1'') ''/api/v1''"
    by (simp add: endsWith_def)
  have r: "removeApiSuffix (w @ h @ ''/api/v1'') = w @ h"
    using e by (simp add: removeApiSuffix_def)
  from n e r show ?thesis
    by (simp only: stripBase_def Let_def if_True if_False)
qed

lemma stripBase_api_slash:
  "stripBase (w @ h @ ''/api/v1/'') = w @ h"
proof -
  have e1: "endsWith (w @ h @ ''/api/v1/'') ''/''"
    by (simp add: endsWith_def)
  have b: "butlast (w @ h @ ''/api/v1/'') = w @ h @ ''/api/v1''"
    by (simp add: butlast_append)
  have e: "endsWith (w @ h @ ''/api/v1'') ''/api/v1''"
    by (simp add: endsWith_def)
  have r: "removeApiSuffix (w @ h @ ''/api/v1'') = w @ h"
    using e by (simp add: removeApiSuffix_def)
  from e1 b e r show ?thesis
    by (simp only: stripBase_def Let_def if_True if_False)
qed

lemma scheme_replaced:
  "replaceScheme ((if secure then ''https://'' else ''http://'') @ r)
       (if startsWith ((if secure then ''https://'' else ''http://'') @ r) ''https''
        then ''wss://'' else ''ws://'')
     = (if secure then ''wss://'' else ''ws://'') @ r"
  by (simp add: replaceScheme_def startsWith_def)

lemma scheme_starts_http:
  "startsWith ((if secure then ''https://'' else ''http://'') @ r) ''http''"
  by (simp add: startsWith_def)

lemma apiDerivedUrl_scheme:
  "apiDerivedUrl ((if secure then ''https://'' else ''http://'') @ r) =
     stripBase ((if secure then ''wss://'' else ''ws://'') @ r) @ ''/api/v1/live/stream''"
  by (simp only: apiDerivedUrl_stripBase scheme_replaced)

lemma getWebSocketUrl_api:
  assumes "window env = Some loc" "\<not> truthy (NEXT_PUBLIC_WS_URL env)"
    "NEXT_PUBLIC_API_URL env = Some ((if secure then ''https://'' else ''http://'') @ r)"
  shows "getWebSocketUrl env =
     stripBase ((if secure then ''wss://'' else ''ws://'') @ r) @ ''/api/v1/live/stream''"
proof -
  from assms have "getWebSocketUrl env =
      apiDerivedUrl ((if secure then ''https://'' else ''http://'') @ r)"
    using scheme_starts_http [of secure r]
    by (simp add: getWebSocketUrl_def del: append.simps)
  then show ?thesis
    by (simp only: apiDerivedUrl_scheme)
qed

lemma window_exampleEnv: "window exampleEnv = Some examplePage"
  by (simp add: exampleEnv_def)

text \<open>
  C9 (as amended). In the browser the endpoint is \<^verbatim>\<open>NEXT_PUBLIC_WS_URL\<close> when that is
  set. Otherwise, when the API URL starts with \<^verbatim>\<open>https://\<close> or \<^verbatim>\<open>http://\<close>, host and
  path are those of the API URL, with one trailing slash and a trailing \<^verbatim>\<open>/api/v1\<close>
  removed, and the scheme is \<^verbatim>\<open>wss\<close> for an \<^verbatim>\<open>https\<close> API URL and \<^verbatim>\<open>ws\<close> for an \<^verbatim>\<open>http\<close>
  one, whatever the page. Otherwise, when the API URL does not start with \<^verbatim>\<open>http\<close>,
  the endpoint is \<^verbatim>\<open>ws://localhost:8000\<close> on a local page, and else the page's own
  host, with \<^verbatim>\<open>wss\<close> exactly when the page's protocol is \<^verbatim>\<open>https:\<close>. A stored,
  non-empty token is appended, encoded, as the query parameter \<^verbatim>\<open>token\<close>, and
  \<^verbatim>\<open>connect\<close> opens that URL.
\<close>

theorem endpoint_url:
  assumes "window env = Some loc"
  shows "(NEXT_PUBLIC_WS_URL env = Some u \<and> u \<noteq> [] \<longrightarrow> getWebSocketUrl env = u) \<and>
    (\<not> truthy (NEXT_PUBLIC_WS_URL env) \<and>
       NEXT_PUBLIC_API_URL env = Some ((if secure then ''https://'' else ''http://'') @ h) \<and>
       \<not> endsWith ((if secure then ''wss://'' else ''ws://'') @ h) ''/'' \<and>
       \<not> endsWith ((if secure then ''wss://'' else ''ws://'') @ h) ''/api/v1'' \<longrightarrow>
       getWebSocketUrl env =
         (if secure then ''wss://'' else ''ws://'') @ h @ ''/api/v1/live/stream'') \<and>
    (\<not> truthy (NEXT_PUBLIC_WS_URL env) \<and>
       NEXT_PUBLIC_API_URL env = Some ((if secure then ''https://'' else ''http://'') @ h @ ''/'') \<and>
       \<not> endsWith ((if secure then ''wss://'' else ''ws://'') @ h) ''/api/v1'' \<longrightarrow>
       getWebSocketUrl env =
         (if secure then ''wss://'' else ''ws://'') @ h @ ''/api/v1/live/stream'') \<and>
    (\<not> truthy (NEXT_PUBLIC_WS_URL env) \<and>
       NEXT_PUBLIC_API_URL env = Some ((if secure then ''https://'' else ''http://'') @ h @ ''/api/v1'') \<longrightarrow>
       getWebSocketUrl env =
         (if secure then ''wss://'' else ''ws://'') @ h @ ''/api/v1/live/stream'') \<and>
    (\<not> truthy (NEXT_PUBLIC_WS_URL env) \<and>
       NEXT_PUBLIC_API_URL env = Some ((if secure then ''https://'' else ''http://'') @ h @ ''/api/v1/'') \<longrightarrow>
       getWebSocketUrl env =
         (if secure then ''wss://'' else ''ws://'') @ h @ ''/api/v1/live/stream'') \<and>
    (\<not> truthy (NEXT_PUBLIC_WS_URL env) \<and>
       \<not> startsWith (case NEXT_PUBLIC_API_URL env of Some a \<Rightarrow> a | None \<Rightarrow> []) ''http'' \<longrightarrow>
       getWebSocketUrl env =
         (if hostname loc = ''localhost'' \<or> hostname loc = ''127.0.0.1''
          then ''ws://localhost:8000/api/v1/live/stream''
          else (if protocol loc = ''https:'' then ''wss://'' else ''ws://'')
               @ host loc @ ''/api/v1/live/stream'')) \<and>
    (localStorage env AUTH_TOKEN_KEY = Some tk \<and> tk \<noteq> [] \<and> encodeURIComponent env tk = Some enc \<longrightarrow>
       connectUrl env = Inr (getWebSocketUrl env @ ''?token='' @ enc)) \<and>
    (\<not> truthy (localStorage env AUTH_TOKEN_KEY) \<longrightarrow> connectUrl env = Inr (getWebSocketUrl env)) \<and>
    (\<not> socketOpen c \<and> connectUrl env = Inr wsUrl \<and> acceptsUrl env wsUrl \<longrightarrow>
       connect env c = Inr (c\<lparr>wsRef := Some \<lparr>url = wsUrl, readyState = CONNECTING\<rparr>\<rparr>,
                            [NewWebSocket wsUrl]))"
proof -
  let ?http = "if secure then ''https://'' else ''http://''"
  let ?ws = "if secure then ''wss://'' else ''ws://''"
  have explicit: "NEXT_PUBLIC_WS_URL env = Some u \<and> u \<noteq> [] \<longrightarrow> getWebSocketUrl env = u"
    using assms by (simp add: getWebSocketUrl_def)
  have clean: "\<not> truthy (NEXT_PUBLIC_WS_URL env) \<and> NEXT_PUBLIC_API_URL env = Some (?http @ h) \<and>
       \<not> endsWith (?ws @ h) ''/'' \<and> \<not> endsWith (?ws @ h) ''/api/v1'' \<longrightarrow>
       getWebSocketUrl env = ?ws @ h @ ''/api/v1/live/stream''"
  proof
    assume a: "\<not> truthy (NEXT_PUBLIC_WS_URL env) \<and> NEXT_PUBLIC_API_URL env = Some (?http @ h) \<and>
       \<not> endsWith (?ws @ h) ''/'' \<and> \<not> endsWith (?ws @ h) ''/api/v1''"
    then have "getWebSocketUrl env = stripBase (?ws @ h) @ ''/api/v1/live/stream''"
      using getWebSocketUrl_api [OF assms, of secure h] by blast
    moreover from a have "stripBase (?ws @ h) = ?ws @ h"
      using stripBase_clean [of ?ws h] by blast
    ultimately show "getWebSocketUrl env = ?ws @ h @ ''/api/v1/live/stream''"
      by (simp only: append_assoc)
  qed
  have slash: "\<not> truthy (NEXT_PUBLIC_WS_URL env) \<and> NEXT_PUBLIC_API_URL env = Some (?http @ h @ ''/'') \<and>
       \<not> endsWith (?ws @ h) ''/api/v1'' \<longrightarrow>
       getWebSocketUrl env = ?ws @ h @ ''/api/v1/live/stream''"
  proof
    assume a: "\<not> truthy (NEXT_PUBLIC_WS_URL env) \<and> NEXT_PUBLIC_API_URL env = Some (?http @ h @ ''/'') \<and>
       \<not> endsWith (?ws @ h) ''/api/v1''"
    then have "getWebSocketUrl env = stripBase (?ws @ h @ ''/'') @ ''/api/v1/live/stream''"
      using getWebSocketUrl_api [OF assms, of secure "h @ ''/''"] by blast
    moreover from a have "stripBase (?ws @ h @ ''/'') = ?ws @ h"
      using stripBase_slash [of ?ws h] by blast
    ultimately show "getWebSocketUrl env = ?ws @ h @ ''/api/v1/live/stream''"
      by (simp only: append_assoc)
  qed
  have api: "\<not> truthy (NEXT_PUBLIC_WS_URL env) \<and>
       NEXT_PUBLIC_API_URL env = Some (?http @ h @ ''/api/v1'') \<longrightarrow>
       getWebSocketUrl env = ?ws @ h @ ''/api/v1/live/stream''"
  proof
    assume a: "\<not> truthy (NEXT_PUBLIC_WS_URL env) \<and>
       NEXT_PUBLIC_API_URL env = Some (?http @ h @ ''/api/v1'')"
    then have "getWebSocketUrl env = stripBase (?ws @ h @ ''/api/v1'') @ ''/api/v1/live/stream''"
      using getWebSocketUrl_api [OF assms, of secure "h @ ''/api/v1''"] by blast
    then show "getWebSocketUrl env = ?ws @ h @ ''/api/v1/live/stream''"
      by (simp only: stripBase_api append_assoc)
  qed
  have api_slash: "\<not> truthy (NEXT_PUBLIC_WS_URL env) \<and>
       NEXT_PUBLIC_API_URL env = Some (?http @ h @ ''/api/v1/'') \<longrightarrow>
       getWebSocketUrl env = ?ws @ h @ ''/api/v1/live/stream''"
  proof
    assume a: "\<not> truthy (NEXT_PUBLIC_WS_URL env) \<and>
       NEXT_PUBLIC_API_URL env = Some (?http @ h @ ''/api/v1/'')"
    then have "getWebSocketUrl env = stripBase (?ws @ h @ ''/api/v1/'') @ ''/api/v1/live/stream''"
      using getWebSocketUrl_api [OF assms, of secure "h @ ''/api/v1/''"] by blast
    then show "getWebSocketUrl env = ?ws @ h @ ''/api/v1/live/stream''"
      by (simp only: stripBase_api_slash append_assoc)
  qed
  have fallback: "\<not> truthy (NEXT_PUBLIC_WS_URL env) \<and>
       \<not> startsWith (case NEXT_PUBLIC_API_URL env of Some a \<Rightarrow> a | None \<Rightarrow> []) ''http'' \<longrightarrow>
       getWebSocketUrl env =
         (if hostname loc = ''localhost'' \<or> hostname loc = ''127.0.0.1''
          then ''ws://localhost:8000/api/v1/live/stream''
          else (if protocol loc = ''https:'' then ''wss://'' else ''ws://'')
               @ host loc @ ''/api/v1/live/stream'')"
    using assms by (simp add: getWebSocketUrl_def)
  have token: "localStorage env AUTH_TOKEN_KEY = Some tk \<and> tk \<noteq> [] \<and> encodeURIComponent env tk = Some enc \<longrightarrow>
       connectUrl env = Inr (getWebSocketUrl env @ ''?token='' @ enc)"
    using assms by (simp add: connectUrl_def getAuthToken_def)
  have anonymous: "\<not> truthy (localStorage env AUTH_TOKEN_KEY) \<longrightarrow> connectUrl env = Inr (getWebSocketUrl env)"
    using assms by (simp add: connectUrl_def getAuthToken_def)
  have opened: "\<not> socketOpen c \<and> connectUrl env = Inr wsUrl \<and> acceptsUrl env wsUrl \<longrightarrow>
       connect env c = Inr (c\<lparr>wsRef := Some \<lparr>url = wsUrl, readyState = CONNECTING\<rparr>\<rparr>,
                            [NewWebSocket wsUrl])"
    by (simp add: connect_def try_catch_def)
  from explicit clean slash api api_slash fallback token anonymous opened show ?thesis
    by (intro conjI)
qed

text \<open>
  C9 as stated fails: a page served over plain HTTP with an HTTPS API URL connects
  over \<^verbatim>\<open>wss\<close>; and a local page served over HTTPS on port 3000, with no API URL,
  connects over \<^verbatim>\<open>ws\<close> to port 8000, which is not its own host.
\<close>

theorem wss_on_plain_http_page:
  "window exampleEnv = Some examplePage \<and> protocol examplePage = ''http:'' \<and>
   NEXT_PUBLIC_API_URL exampleEnv = Some ''https://api.example.com'' \<and>
   getWebSocketUrl exampleEnv = ''wss://api.example.com/api/v1/live/stream'' \<and>
   \<not> (startsWith (getWebSocketUrl exampleEnv) ''wss://'' \<longleftrightarrow> protocol examplePage = ''https:'') \<and>
   window localEnv = Some localPage \<and> protocol localPage = ''https:'' \<and>
   host localPage = ''localhost:3000'' \<and> NEXT_PUBLIC_API_URL localEnv = None \<and>
   getWebSocketUrl localEnv = ''ws://localhost:8000/api/v1/live/stream''"
proof -
  have u: "getWebSocketUrl exampleEnv = ''wss://api.example.com/api/v1/live/stream''"
    by (simp add: getWebSocketUrl_def exampleEnv_def apiDerivedUrl_def startsWith_def
        endsWith_def replaceScheme_def Let_def)
  have pr: "protocol examplePage = ''http:''"
    by (simp add: examplePage_def)
  have a: "NEXT_PUBLIC_API_URL exampleEnv = Some ''https://api.example.com''"
    by (simp add: exampleEnv_def)
  have l: "getWebSocketUrl localEnv = ''ws://localhost:8000/api/v1/live/stream''"
    by (simp add: getWebSocketUrl_def localEnv_def localPage_def startsWith_def)
  have lp: "window localEnv = Some localPage \<and> protocol localPage = ''https:'' \<and>
      host localPage = ''localhost:3000'' \<and> NEXT_PUBLIC_API_URL localEnv = None"
    by (simp add: localEnv_def localPage_def)
  from u pr a l lp window_exampleEnv show ?thesis
    by (simp add: startsWith_def)
qed

theorem endpoint_url_witness:
  "window exampleEnv = Some examplePage \<and> window tokenEnv = Some securePage \<and>
   window plainApiEnv = Some securePage \<and>
   getWebSocketUrl exampleEnv = ''wss://api.example.com/api/v1/live/stream'' \<and>
   NEXT_PUBLIC_API_URL plainApiEnv = Some ''http://10.0.0.5:8000/api/v1/'' \<and>
   getWebSocketUrl plainApiEnv = ''ws://10.0.0.5:8000/api/v1/live/stream'' \<and>
   getWebSocketUrl tokenEnv = ''wss://signals.example.com/api/v1/live/stream'' \<and>
   connectUrl tokenEnv = Inr ''wss://signals.example.com/api/v1/live/stream?token=abc123'' \<and>
   connect tokenEnv initial =
     Inr (initial\<lparr>wsRef := Some \<lparr>url = ''wss://signals.example.com/api/v1/live/stream?token=abc123'',
                                   readyState = CONNECTING\<rparr>\<rparr>,
          [NewWebSocket ''wss://signals.example.com/api/v1/live/stream?token=abc123''])"
proof -
  have w2: "window tokenEnv = Some securePage"
    by (simp add: tokenEnv_def)
  have w3: "window plainApiEnv = Some securePage"
    by (simp add: plainApiEnv_def)
  have api: "\<not> truthy (NEXT_PUBLIC_WS_URL exampleEnv) \<and>
      NEXT_PUBLIC_API_URL exampleEnv = Some ((if True then ''https://'' else ''http://'') @ ''api.example.com'') \<and>
      \<not> endsWith ((if True then ''wss://'' else ''ws://'') @ ''api.example.com'') ''/'' \<and>
      \<not> endsWith ((if True then ''wss://'' else ''ws://'') @ ''api.example.com'') ''/api/v1''"
    by (simp add: exampleEnv_def endsWith_def)
  from endpoint_url [OF window_exampleEnv, where secure = True and h = "''api.example.com''"] api
  have "getWebSocketUrl exampleEnv =
      (if True then ''wss://'' else ''ws://'') @ ''api.example.com'' @ ''/api/v1/live/stream''"
    by blast
  then have u1: "getWebSocketUrl exampleEnv = ''wss://api.example.com/api/v1/live/stream''"
    by simp
  have plain: "\<not> truthy (NEXT_PUBLIC_WS_URL plainApiEnv) \<and>
      NEXT_PUBLIC_API_URL plainApiEnv =
        Some ((if False then ''https://'' else ''http://'') @ ''10.0.0.5:8000'' @ ''/api/v1/'')"
    by (simp add: plainApiEnv_def)
  from endpoint_url [OF w3, where secure = False and h = "''10.0.0.5:8000''"] plain
  have "getWebSocketUrl plainApiEnv =
      (if False then ''wss://'' else ''ws://'') @ ''10.0.0.5:8000'' @ ''/api/v1/live/stream''"
    by blast
  then have u5: "getWebSocketUrl plainApiEnv = ''ws://10.0.0.5:8000/api/v1/live/stream''"
    by simp
  have a5: "NEXT_PUBLIC_API_URL plainApiEnv = Some ''http://10.0.0.5:8000/api/v1/''"
    by (simp add: plainApiEnv_def)
  have rel: "\<not> truthy (NEXT_PUBLIC_WS_URL tokenEnv) \<and>
      \<not> startsWith (case NEXT_PUBLIC_API_URL tokenEnv of Some a \<Rightarrow> a | None \<Rightarrow> []) ''http''"
    by (simp add: tokenEnv_def startsWith_def)
  from endpoint_url [OF w2] rel
  have "getWebSocketUrl tokenEnv =
         (if hostname securePage = ''localhost'' \<or> hostname securePage = ''127.0.0.1''
          then ''ws://localhost:8000/api/v1/live/stream''
          else (if protocol securePage = ''https:'' then ''wss://'' else ''ws://'')
               @ host securePage @ ''/api/v1/live/stream'')"
    by blast
  then have u2: "getWebSocketUrl tokenEnv = ''wss://signals.example.com/api/v1/live/stream''"
    by (simp add: securePage_def)
  have tok: "localStorage tokenEnv AUTH_TOKEN_KEY = Some ''abc123'' \<and> ''abc123'' \<noteq> [] \<and>
      encodeURIComponent tokenEnv ''abc123'' = Some ''abc123''"
    by (simp add: tokenEnv_def)
  from endpoint_url [OF w2, where tk = "''abc123''" and enc = "''abc123''"] tok
  have "connectUrl tokenEnv = Inr (getWebSocketUrl tokenEnv @ ''?token='' @ ''abc123'')"
    by blast
  with u2 have u3: "connectUrl tokenEnv = Inr ''wss://signals.example.com/api/v1/live/stream?token=abc123''"
    by simp
  have pre: "\<not> socketOpen initial \<and>
      acceptsUrl tokenEnv ''wss://signals.example.com/api/v1/live/stream?token=abc123''"
    by (simp add: socketOpen_def initial_def tokenEnv_def)
  from endpoint_url [OF w2, where c = initial
      and wsUrl = "''wss://signals.example.com/api/v1/live/stream?token=abc123''"] u3 pre
  have u4: "connect tokenEnv initial =
     Inr (initial\<lparr>wsRef := Some \<lparr>url = ''wss://signals.example.com/api/v1/live/stream?token=abc123'',
                                   readyState = CONNECTING\<rparr>\<rparr>,
          [NewWebSocket ''wss://signals.example.com/api/v1/live/stream?token=abc123''])"
    by blast
  from window_exampleEnv w2 w3 u1 a5 u5 u2 u3 u4 show ?thesis
    by simp
qed

end
